theory Spec2Isabelle
  imports Complex_Main
begin

section \<open>Data model of the canvas (FlowCanvas component)\<close>

text \<open>
  The canvas keeps its graph in React state: \<^verbatim>\<open>nodes\<close>, \<^verbatim>\<open>edges\<close>, \<^verbatim>\<open>nodeIdCounter\<close>
  and the marquee state. JavaScript numbers are doubles. A coordinate is a \<open>real\<close>, the
  value of a finite double; the sum of two coordinates is formed by the addition of the
  runtime, a parameter of the model (\<open>add\<close> below). The id counter and the parsed id
  suffixes are non-negative integers or \<^verbatim>\<open>Infinity\<close>; they are values of \<open>nat\<close>, and every
  sum is rounded as a double rounds it (\<open>js_add\<close> below).
  A node's optional \<^verbatim>\<open>selected\<close> flag is a \<open>bool\<close> (\<^verbatim>\<open>undefined\<close> is falsy and reads as
  \<open>False\<close>); its optional \<^verbatim>\<open>type\<close> is a \<open>string option\<close>. Of the node payload
  \<^verbatim>\<open>data\<close> only the two fields that the canvas itself reads are kept apart, the rest is
  carried as an opaque string.
\<close>

record point =
  px :: real
  py :: real

record node_data =
  title :: "string option"
  isActive :: "bool option"
  payload :: string

record node =
  nid :: string
  ntype :: "string option"
  position :: point
  selected :: bool
  data :: node_data

record edge =
  eid :: string
  source :: string
  target :: string

record Viewport =
  vx :: real
  vy :: real
  zoom :: real

record canvas =
  nodes :: "node list"
  edges :: "edge list"
  nodeIdCounter :: nat
  isSelecting :: bool
  selectionStart :: "point option"
  selectionEnd :: "point option"

subsection \<open>Strings: template literals, \<^verbatim>\<open>replace\<close>, the suffix pattern, \<^verbatim>\<open>parseInt\<close>\<close>

text \<open>The decimal digit \<open>d\<close>, for \<open>d < 10\<close> (the only use).\<close>

definition digit_char :: "nat \<Rightarrow> char" where
  "digit_char d = ''0123456789'' ! d"

definition is_digit :: "char \<Rightarrow> bool" where
  "is_digit c = (48 \<le> (of_char c :: nat) \<and> (of_char c :: nat) \<le> 57)"

definition digit_val :: "char \<Rightarrow> nat" where
  "digit_val c = of_char c - 48"

text \<open>The decimal rendering of a non-negative integer inside a template literal.\<close>

fun show_nat :: "nat \<Rightarrow> string" where
  "show_nat n = (if n < 10 then [digit_char n] else show_nat (n div 10) @ [digit_char (n mod 10)])"

declare show_nat.simps [simp del]

subsection \<open>Numbers: doubles that hold non-negative integers\<close>

text \<open>
  A double has 53 significant bits. \<open>js_round n\<close> is the double nearest to the integer
  \<open>n\<close>, ties going to the even significand: every integer up to \<open>2^53\<close> is kept, above
  that the spacing is \<open>2 ^ (bit_length n - 53)\<close>. From \<open>2^1024 - 2^970\<close> on the result is
  \<^verbatim>\<open>Infinity\<close>, which the model writes as the number \<open>2^1024\<close> (no finite double). The sum
  of two such doubles is the rounded exact sum.
\<close>

fun bit_length :: "nat \<Rightarrow> nat" where
  "bit_length n = (if n = 0 then 0 else Suc (bit_length (n div 2)))"

declare bit_length.simps [simp del]

definition infinity :: nat where
  "infinity = 2 ^ 1024"

definition js_round :: "nat \<Rightarrow> nat" where
  "js_round n =
     (let q = 2 ^ (bit_length n - 53);
          m = n div q;
          r = n mod q;
          v = (if 2 * r < q \<or> (2 * r = q \<and> even m) then m * q else (m + 1) * q)
      in if v \<ge> 2 ^ 1024 then infinity else v)"

definition js_add :: "nat \<Rightarrow> nat \<Rightarrow> nat" where
  "js_add a b = js_round (a + b)"

text \<open>
  A number inside a template literal is printed by \<^verbatim>\<open>Number.prototype.toString\<close>: all
  digits of an integer up to \<open>2^53\<close>; above that the decimal with the fewest significant
  digits that still reads back as the same double (the nearest one, with an even last
  digit on a tie), padded with zeros, and from 22 digits on in exponent notation;
  \<^verbatim>\<open>Infinity\<close> by name. Seventeen significant digits always suffice.
\<close>

definition decimal_candidates :: "nat \<Rightarrow> nat \<Rightarrow> nat list" where
  "decimal_candidates x k =
     (let p = 10 ^ (length (show_nat x) - k);
          lo = (x div p) * p;
          hi = lo + p;
          both = filter (\<lambda>v. js_round v = x) [lo, hi]
      in if length both = 2
         then (if x - lo < hi - x then [lo]
               else if hi - x < x - lo then [hi]
               else if even (x div p) then [lo] else [hi])
         else both)"

definition shortest_decimal :: "nat \<Rightarrow> nat" where
  "shortest_decimal x =
     (case List.find (\<lambda>k. decimal_candidates x k \<noteq> []) [1..<18] of
        None \<Rightarrow> x
      | Some k \<Rightarrow> hd (decimal_candidates x k))"

definition strip_zeros :: "string \<Rightarrow> string" where
  "strip_zeros s = rev (dropWhile (\<lambda>c. c = CHR ''0'') (rev s))"

definition number_to_string :: "nat \<Rightarrow> string" where
  "number_to_string n =
     (if n \<ge> infinity then ''Infinity''
      else if n \<le> 2 ^ 53 then show_nat n
      else (let v = shortest_decimal n; ds = show_nat v
            in if length ds \<le> 21 then ds
               else (let s = strip_zeros ds
                     in (if length s = 1 then s else hd s # ''.'' @ tl s)
                        @ ''e+'' @ show_nat (length ds - 1))))"

text \<open>
  \<^verbatim>\<open>parseInt(ds, 10)\<close> on a non-empty string of decimal digits: the double nearest to the
  integer the digits denote. (The language allows an implementation to read the digits
  after the twentieth as zeros; the model rounds the full value.)
\<close>

definition parse_nat :: "string \<Rightarrow> nat" where
  "parse_nat ds = foldl (\<lambda>a c. 10 * a + digit_val c) 0 ds"

definition parseInt10 :: "string \<Rightarrow> nat" where
  "parseInt10 ds = js_round (parse_nat ds)"

text \<open>
  \<^verbatim>\<open>id.match(/-(\d+)$/)\<close>: the pattern matches when the string ends in a hyphen followed
  by one or more digits. A hyphen is no digit, so the only candidate for the group is the
  longest run of digits at the end of the string; the result is that run, or \<open>None\<close>
  when the run is empty or not preceded by a hyphen.
\<close>

definition match_suffix :: "string \<Rightarrow> string option" where
  "match_suffix s =
     (let ds = rev (takeWhile is_digit (rev s));
          rest = dropWhile is_digit (rev s)
      in if ds \<noteq> [] \<and> rest \<noteq> [] \<and> hd rest = CHR ''-'' then Some ds else None)"

text \<open>\<^verbatim>\<open>match ? parseInt(match[1], 10) : 0\<close>\<close>

definition id_suffix :: "string \<Rightarrow> nat" where
  "id_suffix s = (case match_suffix s of Some ds \<Rightarrow> parseInt10 ds | None \<Rightarrow> 0)"

text \<open>
  The trailing numeric suffix in the words of the specification: an id has the numeric
  suffix \<open>n\<close> when it ends in a hyphen followed by a non-empty string of decimal digits,
  and \<open>n\<close> is the number that these digits denote, as a double.
\<close>

definition decimal_value :: "string \<Rightarrow> nat" where
  "decimal_value ds = (\<Sum>i < length ds. digit_val (ds ! i) * 10 ^ (length ds - 1 - i))"

definition numeric_suffix :: "string \<Rightarrow> nat \<Rightarrow> bool" where
  "numeric_suffix s n \<longleftrightarrow>
     (\<exists>p ds. s = p @ ''-'' @ ds \<and> ds \<noteq> [] \<and> (\<forall>c \<in> set ds. is_digit c) \<and>
              n = js_round (decimal_value ds))"

text \<open>\<^verbatim>\<open>s.replace(pat, rep)\<close> with a string pattern: the first occurrence only.\<close>

fun replace_first :: "string \<Rightarrow> string \<Rightarrow> string \<Rightarrow> string" where
  "replace_first pat rep [] = (if pat = [] then rep else [])"
| "replace_first pat rep (c # cs) =
     (if take (length pat) (c # cs) = pat then rep @ drop (length pat) (c # cs)
      else c # replace_first pat rep cs)"

subsection \<open>The runtime\<close>

text \<open>
  Two operations that the canvas uses are no part of the program: the conversion
  \<^verbatim>\<open>screenToFlowPosition\<close> of the graph library, and the addition of two doubles that are
  coordinates. Both are parameters of the model, gathered in one record.
\<close>

record runtime =
  screenToFlowPosition :: "point \<Rightarrow> point"
  add :: "real \<Rightarrow> real \<Rightarrow> real"

subsection \<open>Graph commands\<close>

text \<open>
  \<^verbatim>\<open>handleCreateNode\<close>: the id is \<^verbatim>\<open>`${nodeType}-${nodeIdCounter}`\<close>, the counter advances
  by one and the node is appended. The node's type and payload depend on \<^verbatim>\<open>nodeType\<close>
  by a fixed table; the position is the drop position already converted to flow
  coordinates.
\<close>

definition new_node_id :: "string \<Rightarrow> nat \<Rightarrow> string" where
  "new_node_id nodeType c = nodeType @ ''-'' @ number_to_string c"

definition node_type_of :: "string \<Rightarrow> string" where
  "node_type_of nodeType =
     (if nodeType \<in> set [''text'', ''image'', ''video'', ''audio'', ''document'', ''url'', ''aiModel'']
      then nodeType @ ''Node'' else ''default'')"

definition initial_data :: "string \<Rightarrow> node_data" where
  "initial_data nodeType =
     \<lparr> title = (if nodeType = ''text'' then Some ''Text Input''
                else if nodeType = ''url'' then Some [] else None),
       isActive = (if node_type_of nodeType = ''default'' then None else Some False),
       payload = nodeType \<rparr>"

definition handleCreateNode :: "string \<Rightarrow> point \<Rightarrow> canvas \<Rightarrow> canvas" where
  "handleCreateNode nodeType flowPosition s =
     (let newNode = \<lparr> nid = new_node_id nodeType (nodeIdCounter s),
                       ntype = Some (node_type_of nodeType),
                       position = flowPosition,
                       selected = False,
                       data = initial_data nodeType \<rparr>
      in s\<lparr> nodeIdCounter := js_add (nodeIdCounter s) 1, nodes := nodes s @ [newNode] \<rparr>)"

text \<open>The delete branch of \<^verbatim>\<open>handleKeyDown\<close> (keys Delete and Backspace).\<close>

definition deleteSelected :: "canvas \<Rightarrow> canvas" where
  "deleteSelected s =
     (let selectedNodeIds = map nid (filter selected (nodes s))
      in if length selectedNodeIds > 0
         then s\<lparr> nodes := filter (\<lambda>n. nid n \<notin> set selectedNodeIds) (nodes s),
                 edges := filter (\<lambda>e. source e \<notin> set selectedNodeIds \<and>
                                        target e \<notin> set selectedNodeIds) (edges s) \<rparr>
         else s)"

text \<open>The select-all branch of \<^verbatim>\<open>handleKeyDown\<close>.\<close>

definition selectAll :: "canvas \<Rightarrow> canvas" where
  "selectAll s = s\<lparr> nodes := map (\<lambda>n. n\<lparr>selected := True\<rparr>) (nodes s) \<rparr>"

text \<open>
  \<^verbatim>\<open>handleSelectAIModel\<close>: the id is \<^verbatim>\<open>`aiModel-${nodeIdCounter}`\<close>; the chosen model is
  kept in the payload.
\<close>

definition handleSelectAIModel :: "string \<Rightarrow> point \<Rightarrow> canvas \<Rightarrow> canvas" where
  "handleSelectAIModel modelId flowPosition s =
     (let newNode = \<lparr> nid = ''aiModel-'' @ number_to_string (nodeIdCounter s),
                       ntype = Some ''aiModelNode'',
                       position = flowPosition,
                       selected = False,
                       data = \<lparr> title = None, isActive = Some False, payload = modelId \<rparr> \<rparr>
      in s\<lparr> nodeIdCounter := js_add (nodeIdCounter s) 1, nodes := nodes s @ [newNode] \<rparr>)"

text \<open>
  \<^verbatim>\<open>duplicateSelectedNodes\<close>. The id of every copy is
  \<^verbatim>\<open>`${node.type?.replace('Node', '') || 'node'}-${nodeIdCounter + nodes.length}`\<close>:
  the number is computed from the counter and the node count of the render, and is the
  same for every copy made by one command.
\<close>

definition dup_prefix :: "node \<Rightarrow> string" where
  "dup_prefix n =
     (case ntype n of
        None \<Rightarrow> ''node''
      | Some t \<Rightarrow> (let r = replace_first ''Node'' [] t in if r = [] then ''node'' else r))"

definition dup_title :: "string option \<Rightarrow> string" where
  "dup_title t = (case t of None \<Rightarrow> ''Copy'' | Some x \<Rightarrow> if x = [] then ''Copy'' else x @ '' Copy'')"

definition dup_node :: "runtime \<Rightarrow> nat \<Rightarrow> node \<Rightarrow> node" where
  "dup_node rt k n =
     n\<lparr> nid := dup_prefix n @ ''-'' @ number_to_string k,
        position := \<lparr> px = add rt (px (position n)) 50, py = add rt (py (position n)) 50 \<rparr>,
        selected := False,
        data := (data n)\<lparr> title := Some (dup_title (title (data n))),
                           isActive := Some (case isActive (data n) of Some b \<Rightarrow> b | None \<Rightarrow> False) \<rparr> \<rparr>"

definition duplicateSelectedNodes :: "runtime \<Rightarrow> canvas \<Rightarrow> canvas" where
  "duplicateSelectedNodes rt s =
     (let selectedNodesList = filter selected (nodes s)
      in if length selectedNodesList = 0 then s
         else let newNodes = map (dup_node rt (js_add (nodeIdCounter s) (length (nodes s))))
                                 selectedNodesList
              in s\<lparr> nodes := map (\<lambda>n. n\<lparr>selected := False\<rparr>) (nodes s) @ newNodes,
                      nodeIdCounter := js_add (nodeIdCounter s) (length newNodes) \<rparr>)"

subsection \<open>Marquee selection\<close>

text \<open>
  \<^verbatim>\<open>handleMouseDown\<close>, \<^verbatim>\<open>handleMouseMove\<close> and \<^verbatim>\<open>handleMouseUp\<close> of the container. Points
  are relative to the container, which exists while its handlers run. A marquee starts
  only when the press hits the container itself (\<^verbatim>\<open>event.target === event.currentTarget\<close>),
  the flag \<open>onContainer\<close>.
\<close>

definition handleMouseDown :: "bool \<Rightarrow> point \<Rightarrow> canvas \<Rightarrow> canvas" where
  "handleMouseDown onContainer p s =
     (if onContainer
      then s\<lparr> isSelecting := True, selectionStart := Some p, selectionEnd := Some p \<rparr>
      else s)"

definition node_in_box :: "runtime \<Rightarrow> point \<Rightarrow> point \<Rightarrow> node \<Rightarrow> bool" where
  "node_in_box rt flowStart flowEnd n =
     (let nodeX = px (position n); nodeY = py (position n);
          nodeWidth = 250; nodeHeight = 150
      in nodeX \<ge> px flowStart \<and> nodeY \<ge> py flowStart \<and>
         add rt nodeX nodeWidth \<le> px flowEnd \<and> add rt nodeY nodeHeight \<le> py flowEnd)"

definition handleMouseMove :: "runtime \<Rightarrow> point \<Rightarrow> canvas \<Rightarrow> canvas" where
  "handleMouseMove rt m s =
     (case selectionStart s of
        None \<Rightarrow> s
      | Some st \<Rightarrow>
          if \<not> isSelecting s then s
          else let flowStart = screenToFlowPosition rt
                                 \<lparr> px = min (px st) (px m), py = min (py st) (py m) \<rparr>;
                   flowEnd = screenToFlowPosition rt
                               \<lparr> px = max (px st) (px m), py = max (py st) (py m) \<rparr>;
                   selectedNodeIds = map nid (filter (node_in_box rt flowStart flowEnd) (nodes s))
               in s\<lparr> selectionEnd := Some m,
                       nodes := map (\<lambda>n. n\<lparr>selected := nid n \<in> set selectedNodeIds\<rparr>) (nodes s) \<rparr>)"

definition handleMouseUp :: "canvas \<Rightarrow> canvas" where
  "handleMouseUp s = s\<lparr> isSelecting := False, selectionStart := None, selectionEnd := None \<rparr>"

text \<open>
  The selection rule in the words of the specification: the bounding box of a node is its
  position extended by the fixed width 250 and height 150, the far corner being the sums
  that the runtime computes, and a node is selected when this box lies entirely within
  the rectangle spanned by the two converted corners. Both are point sets of the plane.
\<close>

definition node_bounds :: "runtime \<Rightarrow> node \<Rightarrow> (real \<times> real) set" where
  "node_bounds rt n =
     {(u, v). px (position n) \<le> u \<and> u \<le> add rt (px (position n)) 250 \<and>
              py (position n) \<le> v \<and> v \<le> add rt (py (position n)) 150}"

definition rect_region :: "point \<Rightarrow> point \<Rightarrow> (real \<times> real) set" where
  "rect_region a b = {(u, v). px a \<le> u \<and> u \<le> px b \<and> py a \<le> v \<and> v \<le> py b}"

subsection \<open>Sequences of commands\<close>

datatype cmd =
    CreateNode string point
  | SelectAIModel string point
  | DeleteSelected
  | DuplicateSelected
  | SelectAll
  | MouseDown bool point
  | MouseMove point
  | MouseUp

fun exec :: "runtime \<Rightarrow> canvas \<Rightarrow> cmd \<Rightarrow> canvas" where
  "exec rt s (CreateNode t p) = handleCreateNode t p s"
| "exec rt s (SelectAIModel m p) = handleSelectAIModel m p s"
| "exec rt s DeleteSelected = deleteSelected s"
| "exec rt s DuplicateSelected = duplicateSelectedNodes rt s"
| "exec rt s SelectAll = selectAll s"
| "exec rt s (MouseDown onContainer p) = handleMouseDown onContainer p s"
| "exec rt s (MouseMove p) = handleMouseMove rt p s"
| "exec rt s MouseUp = handleMouseUp s"

definition run :: "runtime \<Rightarrow> cmd list \<Rightarrow> canvas \<Rightarrow> canvas" where
  "run rt cs s = foldl (exec rt) s cs"

text \<open>
  Whether the handler of a command calls \<^verbatim>\<open>setNodes\<close>, and so makes the next render see a
  new \<^verbatim>\<open>nodes\<close> array.
\<close>

fun sets_nodes :: "canvas \<Rightarrow> cmd \<Rightarrow> bool" where
  "sets_nodes s (CreateNode t p) = True"
| "sets_nodes s (SelectAIModel m p) = True"
| "sets_nodes s DeleteSelected = (filter selected (nodes s) \<noteq> [])"
| "sets_nodes s DuplicateSelected = (filter selected (nodes s) \<noteq> [])"
| "sets_nodes s SelectAll = True"
| "sets_nodes s (MouseDown onContainer p) = False"
| "sets_nodes s (MouseMove p) = (isSelecting s \<and> selectionStart s \<noteq> None)"
| "sets_nodes s MouseUp = False"

text \<open>No dangling edge: both endpoints of every edge are ids of present nodes.\<close>

definition no_dangling :: "canvas \<Rightarrow> bool" where
  "no_dangling s =
     list_all (\<lambda>e. source e \<in> set (map nid (nodes s)) \<and> target e \<in> set (map nid (nodes s))) (edges s)"

section \<open>The remote store (\<^verbatim>\<open>canvasOperations\<close>)\<close>

text \<open>
  The store is reached through a query client that is no part of the program. The model
  keeps the two tables as lists of rows; a query that cannot be answered (here: the store
  is offline, or \<^verbatim>\<open>maybeSingle\<close> finds several rows) yields an error, which the caller
  throws. A thrown error is the \<open>Inl\<close> of a sum.
\<close>

datatype error = StoreError string | AccessDenied

record canvas_row =
  row_id :: string
  user_id :: string
  canvas_name :: string
  row_nodes :: "node list"
  row_edges :: "edge list"
  row_viewport :: Viewport
  thumbnail_url :: "string option"

record share =
  canvas_id :: string
  shared_with_user_id :: string
  share_permission :: string

record store =
  canvases :: "canvas_row list"
  canvas_shares :: "share list"
  offline :: bool

text \<open>
  The object that \<^verbatim>\<open>loadCanvas\<close> resolves to: the columns of the row, spread into a fresh
  object, and the two added fields. A field that the object does not have is \<open>None\<close>;
  spreading \<^verbatim>\<open>null\<close> adds no field.
\<close>

record loaded_canvas =
  l_id :: "string option"
  l_user_id :: "string option"
  l_canvas_name :: "string option"
  l_nodes :: "node list option"
  l_edges :: "edge list option"
  l_viewport :: "Viewport option"
  l_thumbnail_url :: "string option"
  permission :: string
  isOwner :: bool

definition spread_row :: "canvas_row option \<Rightarrow> string \<Rightarrow> bool \<Rightarrow> loaded_canvas" where
  "spread_row d p ow =
     \<lparr> l_id = map_option row_id d,
       l_user_id = map_option user_id d,
       l_canvas_name = map_option canvas_name d,
       l_nodes = map_option row_nodes d,
       l_edges = map_option row_edges d,
       l_viewport = map_option row_viewport d,
       l_thumbnail_url = Option.bind d thumbnail_url,
       permission = p,
       isOwner = ow \<rparr>"

definition userId :: string where
  "userId = ''default-user''"

text \<open>An optional string in a condition: \<^verbatim>\<open>undefined\<close>, \<^verbatim>\<open>null\<close> and \<^verbatim>\<open>''\<close> are falsy.\<close>

definition truthy :: "string option \<Rightarrow> bool" where
  "truthy x = (case x of None \<Rightarrow> False | Some v \<Rightarrow> v \<noteq> [])"

fun maybeSingle :: "'a list \<Rightarrow> error + 'a option" where
  "maybeSingle [] = Inr None"
| "maybeSingle [x] = Inr (Some x)"
| "maybeSingle (x # y # zs) = Inl (StoreError ''multiple rows'')"

definition query :: "store \<Rightarrow> 'a list \<Rightarrow> error + 'a option" where
  "query st rows = (if offline st then Inl (StoreError ''offline'') else maybeSingle rows)"

definition loadCanvas :: "store \<Rightarrow> string option \<Rightarrow> string \<Rightarrow> error + loaded_canvas option" where
  "loadCanvas st canvasId canvasName =
     (if truthy canvasId
      then (case query st (filter (\<lambda>r. Some (row_id r) = canvasId) (canvases st)) of
              Inl e \<Rightarrow> Inl e
            | Inr dat \<Rightarrow>
                (case dat of
                   None \<Rightarrow> Inr (Some (spread_row dat ''edit'' True))
                 | Some d \<Rightarrow>
                     if user_id d \<noteq> userId
                     then (case query st (filter (\<lambda>sh. Some (canvas_id sh) = canvasId \<and>
                                                      shared_with_user_id sh = userId)
                                            (canvas_shares st)) of
                             Inl e \<Rightarrow> Inl AccessDenied
                           | Inr None \<Rightarrow> Inl AccessDenied
                           | Inr (Some shareData) \<Rightarrow>
                               Inr (Some (spread_row dat (share_permission shareData) False)))
                     else Inr (Some (spread_row dat ''edit'' True))))
      else (case query st (filter (\<lambda>r. user_id r = userId \<and> canvas_name r = canvasName)
                             (canvases st)) of
              Inl e \<Rightarrow> Inl e
            | Inr dat \<Rightarrow>
                (case dat of
                   None \<Rightarrow> Inr None
                 | Some d \<Rightarrow> Inr (Some (spread_row dat ''edit'' True)))))"

text \<open>The object with the two added fields and nothing else: \<^verbatim>\<open>{ permission: 'edit', isOwner: true }\<close>.\<close>

definition bare_object :: loaded_canvas where
  "bare_object =
     \<lparr> l_id = None, l_user_id = None, l_canvas_name = None, l_nodes = None, l_edges = None,
       l_viewport = None, l_thumbnail_url = None, permission = ''edit'', isOwner = True \<rparr>"

text \<open>
  \<^verbatim>\<open>saveCanvas\<close> builds the row to write and issues an update by id or an upsert keyed by
  owner and name. \<^verbatim>\<open>generateThumbnail\<close> issues an update of \<^verbatim>\<open>thumbnail_url\<close> by id,
  \<^verbatim>\<open>cleanupOldVersions\<close> a cleanup by name. The requests that reach the store are values of
  \<open>store_op\<close>; the time stamp \<^verbatim>\<open>updated_at\<close> is left out.
\<close>

record save_args =
  a_nodes :: "node list"
  a_edges :: "edge list"
  a_viewport :: Viewport
  a_canvasName :: "string option"
  a_canvasId :: "string option"
  a_thumbnailUrl :: "string option"

record row_data =
  d_user_id :: string
  d_canvas_name :: string
  d_nodes :: "node list"
  d_edges :: "edge list"
  d_viewport :: Viewport
  d_thumbnail_url :: "string option"

datatype store_op =
    ThumbnailUpdate string
  | CanvasUpdate string row_data
  | CanvasUpsert row_data
  | Cleanup string

definition saveCanvas :: "save_args \<Rightarrow> store_op" where
  "saveCanvas canvasData =
     (let canvasName = (if truthy (a_canvasName canvasData) then the (a_canvasName canvasData)
                        else ''My Canvas'');
          dataToSave = \<lparr> d_user_id = userId,
                         d_canvas_name = canvasName,
                         d_nodes = a_nodes canvasData,
                         d_edges = a_edges canvasData,
                         d_viewport = a_viewport canvasData,
                         d_thumbnail_url = (if truthy (a_thumbnailUrl canvasData)
                                            then a_thumbnailUrl canvasData else None) \<rparr>
      in if truthy (a_canvasId canvasData)
         then CanvasUpdate (the (a_canvasId canvasData)) dataToSave
         else CanvasUpsert dataToSave)"

text \<open>A request with the thumbnail field taken out of the row it writes.\<close>

fun without_thumbnail :: "store_op \<Rightarrow> store_op" where
  "without_thumbnail (CanvasUpdate i d) = CanvasUpdate i (d\<lparr> d_thumbnail_url := None \<rparr>)"
| "without_thumbnail (CanvasUpsert d) = CanvasUpsert (d\<lparr> d_thumbnail_url := None \<rparr>)"
| "without_thumbnail (ThumbnailUpdate i) = ThumbnailUpdate i"
| "without_thumbnail (Cleanup n) = Cleanup n"

section \<open>The canvas session: loading and saving\<close>

text \<open>
  The session is the React state of the component besides the graph: the save status, the
  load flag, the record id and name, the last saved fingerprint (\<^verbatim>\<open>lastSaveDataRef\<close>) and
  the pending debounce timer (\<^verbatim>\<open>saveTimeoutRef\<close>). The field \<open>flowViewport\<close> is the
  viewport held by the graph library, which \<^verbatim>\<open>getViewport()\<close> reads. The field
  \<open>keyClosure\<close> holds the values that the registered key handler, and with it
  \<^verbatim>\<open>manualSave\<close>, closes over. The field \<open>calls\<close> is no program state: it records the
  requests sent to the store, each with the path that sent it.

  An awaited store call is one step of the model; its outcome is an input (\<open>save_env\<close>).
  A timer callback and \<^verbatim>\<open>manualSave\<close> read \<^verbatim>\<open>nodes\<close>, \<^verbatim>\<open>edges\<close>, \<^verbatim>\<open>currentCanvasId\<close> and
  \<^verbatim>\<open>canvasName\<close> from the render that created them; these values are the \<open>closure\<close>.
\<close>

datatype origin = AutoSave | ManualSave

record closure =
  c_nodes :: "node list"
  c_edges :: "edge list"
  c_currentCanvasId :: "string option"
  c_canvasName :: string

record snapshot =
  snap_nodes :: "node list"
  snap_edges :: "edge list"
  snap_viewport :: Viewport

record save_env =
  thumbnail_result :: "error + string"
  save_result :: "error + string"

record session =
  graph :: canvas
  viewport :: Viewport
  flowViewport :: Viewport
  lastSavedTime :: string
  isSaving :: bool
  saveError :: "string option"
  isLoaded :: bool
  currentCanvasId :: "string option"
  canvasName :: string
  lastSaveDataRef :: string
  saveTimeout :: "closure option"
  keyClosure :: closure
  calls :: "(origin \<times> store_op) list"

definition initial_canvas :: canvas where
  "initial_canvas =
     \<lparr> nodes = [], edges = [], nodeIdCounter = 1,
       isSelecting = False, selectionStart = None, selectionEnd = None \<rparr>"

definition initial_session :: session where
  "initial_session =
     \<lparr> graph = initial_canvas,
       viewport = \<lparr> vx = 0, vy = 0, zoom = 1 \<rparr>,
       flowViewport = \<lparr> vx = 0, vy = 0, zoom = 1 \<rparr>,
       lastSavedTime = ''just now'',
       isSaving = False,
       saveError = None,
       isLoaded = False,
       currentCanvasId = None,
       canvasName = ''My Canvas'',
       lastSaveDataRef = [],
       saveTimeout = None,
       keyClosure = \<lparr> c_nodes = [], c_edges = [], c_currentCanvasId = None,
                      c_canvasName = ''My Canvas'' \<rparr>,
       calls = [] \<rparr>"

text \<open>
  \<^verbatim>\<open>loadCanvasData\<close>, after \<^verbatim>\<open>loadCanvas\<close> has settled with \<open>res\<close>. The counter is seeded with
  \<^verbatim>\<open>Math.max(0, ...suffixes) + 1\<close>, a sum of doubles. (The engine's limit on the number of
  spread arguments is not modelled.)
\<close>

definition or_empty :: "'a list option \<Rightarrow> 'a list" where
  "or_empty x = (case x of None \<Rightarrow> [] | Some v \<Rightarrow> v)"

definition max_suffix :: "node list \<Rightarrow> nat" where
  "max_suffix ns = foldl max 0 (map (\<lambda>n. id_suffix (nid n)) ns)"

definition apply_load :: "string option \<Rightarrow> error + loaded_canvas option \<Rightarrow> session \<Rightarrow> session" where
  "apply_load canvasId res s =
     (case res of
        Inl e \<Rightarrow>
          s\<lparr> saveError := Some ''Failed to load canvas data'', lastSavedTime := ''error'',
             isSaving := False, isLoaded := True \<rparr>
      | Inr canvasData \<Rightarrow>
          (let s1 = s\<lparr> currentCanvasId :=
                         (if truthy canvasId then canvasId
                          else (case canvasData of
                                  None \<Rightarrow> None
                                | Some cd \<Rightarrow> if truthy (l_id cd) then l_id cd else None)) \<rparr>
           in case canvasData of
                None \<Rightarrow>
                  s1\<lparr> lastSavedTime := ''never'', canvasName := ''My Canvas'',
                      isSaving := False, isLoaded := True \<rparr>
              | Some cd \<Rightarrow>
                  s1\<lparr> graph := (graph s1)\<lparr> nodes := or_empty (l_nodes cd),
                                           edges := or_empty (l_edges cd),
                                           nodeIdCounter := js_add (max_suffix (or_empty (l_nodes cd))) 1 \<rparr>,
                      canvasName := (if truthy (l_canvas_name cd) then the (l_canvas_name cd)
                                     else ''My Canvas''),
                      viewport := (case l_viewport cd of None \<Rightarrow> viewport s1 | Some v \<Rightarrow> v),
                      flowViewport := (case l_viewport cd of None \<Rightarrow> flowViewport s1 | Some v \<Rightarrow> v),
                      lastSavedTime := ''just now'',
                      isSaving := False, isLoaded := True \<rparr>))"

definition loadCanvasData :: "store \<Rightarrow> string option \<Rightarrow> session \<Rightarrow> session" where
  "loadCanvasData st canvasId s =
     apply_load canvasId
       (loadCanvas st (if truthy canvasId then canvasId else None) ''My Canvas'') s"

text \<open>
  The thumbnail block shared by both save paths: with at least one node the thumbnail is
  requested under the record id, or under \<^verbatim>\<open>'temp'\<close> when there is none; a failure is
  caught and leaves \<^verbatim>\<open>thumbnailUrl\<close> undefined.
\<close>

definition tryGenerateThumbnail :: "save_env \<Rightarrow> closure \<Rightarrow> string option \<times> store_op list" where
  "tryGenerateThumbnail env cl =
     (if length (c_nodes cl) > 0
      then ((case thumbnail_result env of Inr url \<Rightarrow> Some url | Inl thumbnailError \<Rightarrow> None),
            [ThumbnailUpdate (if truthy (c_currentCanvasId cl) then the (c_currentCanvasId cl)
                              else ''temp'')])
      else (None, []))"

text \<open>
  \<^verbatim>\<open>saveCanvasData\<close>, the callback of the debounce timer. \<^verbatim>\<open>JSON.stringify\<close> is the
  parameter \<open>stringify\<close>. The early \<^verbatim>\<open>return\<close> sits inside the \<^verbatim>\<open>try\<close>, so the \<^verbatim>\<open>finally\<close>
  block still clears \<^verbatim>\<open>isSaving\<close>.
\<close>

definition saveCanvasData :: "(snapshot \<Rightarrow> string) \<Rightarrow> save_env \<Rightarrow> closure \<Rightarrow> session \<Rightarrow> session" where
  "saveCanvasData stringify env cl s =
     (let currentViewport = flowViewport s;
          dataToSave = \<lparr> snap_nodes = c_nodes cl, snap_edges = c_edges cl,
                         snap_viewport = currentViewport \<rparr>;
          currentDataHash = stringify dataToSave
      in if currentDataHash = lastSaveDataRef s then s\<lparr> isSaving := False \<rparr>
         else
          (let thumbnailUrl = fst (tryGenerateThumbnail env cl);
               thumbnailOps = snd (tryGenerateThumbnail env cl);
               request = saveCanvas \<lparr> a_nodes = c_nodes cl, a_edges = c_edges cl,
                                      a_viewport = currentViewport,
                                      a_canvasName = Some (c_canvasName cl),
                                      a_canvasId = (if truthy (c_currentCanvasId cl)
                                                    then c_currentCanvasId cl else None),
                                      a_thumbnailUrl = thumbnailUrl \<rparr>
           in case save_result env of
                Inl e \<Rightarrow>
                  s\<lparr> calls := calls s @ map (Pair AutoSave) (thumbnailOps @ [request]),
                     saveError := Some ''Auto-save failed'',
                     lastSavedTime := ''error'',
                     isSaving := False \<rparr>
              | Inr savedId \<Rightarrow>
                  s\<lparr> calls := calls s @ map (Pair AutoSave)
                                          (thumbnailOps @ [request, Cleanup (c_canvasName cl)]),
                     currentCanvasId := (if \<not> truthy (c_currentCanvasId cl) \<and> savedId \<noteq> []
                                         then Some savedId else currentCanvasId s),
                     lastSaveDataRef := currentDataHash,
                     saveError := None,
                     lastSavedTime := ''just now'',
                     isSaving := False \<rparr>))"

text \<open>The fingerprint that \<^verbatim>\<open>saveCanvasData\<close> computes in a session (\<^verbatim>\<open>currentDataHash\<close>).\<close>

definition fingerprint :: "(snapshot \<Rightarrow> string) \<Rightarrow> closure \<Rightarrow> session \<Rightarrow> string" where
  "fingerprint stringify cl s =
     stringify \<lparr> snap_nodes = c_nodes cl, snap_edges = c_edges cl, snap_viewport = flowViewport s \<rparr>"

text \<open>\<^verbatim>\<open>manualSave\<close>, bound to Ctrl+S / Cmd+S.\<close>

definition manualSave :: "save_env \<Rightarrow> closure \<Rightarrow> session \<Rightarrow> session" where
  "manualSave env cl s =
     (let currentViewport = flowViewport s;
          thumbnailUrl = fst (tryGenerateThumbnail env cl);
          thumbnailOps = snd (tryGenerateThumbnail env cl);
          request = saveCanvas \<lparr> a_nodes = c_nodes cl, a_edges = c_edges cl,
                                 a_viewport = currentViewport,
                                 a_canvasName = Some (c_canvasName cl),
                                 a_canvasId = (if truthy (c_currentCanvasId cl)
                                               then c_currentCanvasId cl else None),
                                 a_thumbnailUrl = thumbnailUrl \<rparr>
      in case save_result env of
           Inl e \<Rightarrow>
             s\<lparr> calls := calls s @ map (Pair ManualSave) (thumbnailOps @ [request]),
                saveError := Some ''Save failed'',
                lastSavedTime := ''error'',
                isSaving := False \<rparr>
         | Inr savedId \<Rightarrow>
             s\<lparr> calls := calls s @ map (Pair ManualSave)
                                     (thumbnailOps @ [request, Cleanup (c_canvasName cl)]),
                currentCanvasId := (if \<not> truthy (c_currentCanvasId cl) \<and> savedId \<noteq> []
                                    then Some savedId else currentCanvasId s),
                saveError := None,
                lastSavedTime := ''just now'',
                isSaving := False \<rparr>)"

text \<open>The request that either save path hands to \<^verbatim>\<open>saveCanvas\<close>, given the thumbnail.\<close>

definition save_request :: "string option \<Rightarrow> closure \<Rightarrow> session \<Rightarrow> store_op" where
  "save_request thumbnailUrl cl s =
     saveCanvas \<lparr> a_nodes = c_nodes cl, a_edges = c_edges cl, a_viewport = flowViewport s,
                  a_canvasName = Some (c_canvasName cl),
                  a_canvasId = (if truthy (c_currentCanvasId cl) then c_currentCanvasId cl else None),
                  a_thumbnailUrl = thumbnailUrl \<rparr>"

subsection \<open>The session as a transition system\<close>

text \<open>
  The auto-save effect runs after a render in which one of its dependencies changed. It
  returns at once while \<^verbatim>\<open>isLoaded\<close> is false; otherwise it replaces the pending timer by
  a new one whose callback closes over the values of this render.

  The keydown effect depends on \<^verbatim>\<open>nodes\<close> alone. It runs after a render with a new
  \<^verbatim>\<open>nodes\<close> array and registers a handler that closes over the \<^verbatim>\<open>manualSave\<close> of that
  render; until the next such render a manual save works on these values, also when the
  edges, the name or the record id have changed since.

  The events of a session: the load settles with a result, a canvas command runs, the
  viewport moves, the canvas is renamed, the pending timer fires, the manual save key is
  pressed. A command changes a dependency of the two effects when it sets the nodes (the
  edges are only set together with them), a save only when it sets the record id.
\<close>

definition closure_of :: "session \<Rightarrow> closure" where
  "closure_of s =
     \<lparr> c_nodes = nodes (graph s), c_edges = edges (graph s),
       c_currentCanvasId = currentCanvasId s, c_canvasName = canvasName s \<rparr>"

definition auto_save_effect :: "session \<Rightarrow> session" where
  "auto_save_effect s = (if \<not> isLoaded s then s else s\<lparr> saveTimeout := Some (closure_of s) \<rparr>)"

definition keydown_effect :: "bool \<Rightarrow> session \<Rightarrow> session" where
  "keydown_effect nodesSet s = (if nodesSet then s\<lparr> keyClosure := closure_of s \<rparr> else s)"

datatype event =
    LoadFinished "error + loaded_canvas option"
  | Command cmd
  | ViewportChange Viewport
  | Rename string
  | TimerFires save_env
  | ManualSaveKey save_env

fun step :: "(snapshot \<Rightarrow> string) \<Rightarrow> runtime \<Rightarrow> string option \<Rightarrow> session \<Rightarrow> event \<Rightarrow> session" where
  "step stringify rt canvasId s (LoadFinished res) =
     auto_save_effect
       (keydown_effect (case res of Inr (Some cd) \<Rightarrow> True | _ \<Rightarrow> False)
          (apply_load canvasId res s))"
| "step stringify rt canvasId s (Command c) =
     (if sets_nodes (graph s) c
      then auto_save_effect (keydown_effect True (s\<lparr> graph := exec rt (graph s) c \<rparr>))
      else s\<lparr> graph := exec rt (graph s) c \<rparr>)"
| "step stringify rt canvasId s (ViewportChange v) =
     auto_save_effect (s\<lparr> flowViewport := v, viewport := v \<rparr>)"
| "step stringify rt canvasId s (Rename newName) = auto_save_effect (s\<lparr> canvasName := newName \<rparr>)"
| "step stringify rt canvasId s (TimerFires env) =
     (case saveTimeout s of
        None \<Rightarrow> s
      | Some cl \<Rightarrow>
          (let s' = saveCanvasData stringify env cl (s\<lparr> saveTimeout := None \<rparr>)
           in if currentCanvasId s' \<noteq> currentCanvasId s then auto_save_effect s' else s'))"
| "step stringify rt canvasId s (ManualSaveKey env) =
     (let s' = manualSave env (keyClosure s) s
      in if currentCanvasId s' \<noteq> currentCanvasId s then auto_save_effect s' else s')"

definition run_session :: "(snapshot \<Rightarrow> string) \<Rightarrow> runtime \<Rightarrow> string option \<Rightarrow> event list \<Rightarrow> session" where
  "run_session stringify rt canvasId evs = foldl (step stringify rt canvasId) initial_session evs"

section \<open>Example data\<close>

text \<open>
  A runtime for the examples: the identity as conversion (no pan, zoom 1) and the exact
  sum, which is the sum of doubles wherever it is a double, as with the small integers
  used here.
\<close>

definition example_rt :: runtime where
  "example_rt = \<lparr> screenToFlowPosition = id, add = (+) \<rparr>"

definition example_graph :: canvas where
  "example_graph =
     \<lparr> nodes = [\<lparr> nid = ''text-1'', ntype = Some ''textNode'', position = \<lparr>px = 0, py = 0\<rparr>,
                   selected = True, data = \<lparr>title = None, isActive = None, payload = []\<rparr> \<rparr>,
                 \<lparr> nid = ''text-2'', ntype = Some ''textNode'', position = \<lparr>px = 300, py = 0\<rparr>,
                   selected = False, data = \<lparr>title = None, isActive = None, payload = []\<rparr> \<rparr>,
                 \<lparr> nid = ''image-3'', ntype = Some ''imageNode'', position = \<lparr>px = 600, py = 0\<rparr>,
                   selected = False, data = \<lparr>title = None, isActive = None, payload = []\<rparr> \<rparr>],
       edges = [\<lparr> eid = ''e1'', source = ''text-1'', target = ''text-2'' \<rparr>,
                \<lparr> eid = ''e2'', source = ''text-2'', target = ''image-3'' \<rparr>],
       nodeIdCounter = 4, isSelecting = False, selectionStart = None, selectionEnd = None \<rparr>"

definition example_drag :: canvas where
  "example_drag = handleMouseDown True \<lparr>px = 400, py = 160\<rparr> (selectAll example_graph)"

definition example_pair :: canvas where
  "example_pair =
     run example_rt
       [CreateNode ''text'' \<lparr>px = 0, py = 0\<rparr>, CreateNode ''text'' \<lparr>px = 300, py = 0\<rparr>, SelectAll]
       initial_canvas"

text \<open>
  The same canvas after the duplicate command, with a marquee started at (-10, -10): the
  two copies share the id \<open>text-5\<close> and lie at (50, 50) and (350, 50).
\<close>

definition example_twins :: canvas where
  "example_twins =
     handleMouseDown True \<lparr>px = -10, py = -10\<rparr> (duplicateSelectedNodes example_rt example_pair)"

definition example_loaded :: loaded_canvas where
  "example_loaded =
     spread_row (Some \<lparr> row_id = ''c1'', user_id = userId, canvas_name = ''My Canvas'',
                         row_nodes = nodes example_graph, row_edges = edges example_graph,
                         row_viewport = \<lparr> vx = 0, vy = 0, zoom = 1 \<rparr>,
                         thumbnail_url = None \<rparr>) ''edit'' True"

text \<open>A stored canvas whose only node carries the suffix \<open>2^53\<close>.\<close>

definition example_loaded_big :: loaded_canvas where
  "example_loaded_big =
     spread_row (Some \<lparr> row_id = ''c2'', user_id = userId, canvas_name = ''My Canvas'',
                         row_nodes = [\<lparr> nid = ''text-9007199254740992'', ntype = Some ''textNode'',
                                        position = \<lparr>px = 0, py = 0\<rparr>, selected = False,
                                        data = \<lparr>title = None, isActive = None, payload = []\<rparr> \<rparr>],
                         row_edges = [],
                         row_viewport = \<lparr> vx = 0, vy = 0, zoom = 1 \<rparr>,
                         thumbnail_url = None \<rparr>) ''edit'' True"

text \<open>
  A loaded session on the example graph, a serialisation that lists the node and edge ids,
  and three outcomes of the store calls of one save.
\<close>

definition example_stringify :: "snapshot \<Rightarrow> string" where
  "example_stringify sn =
     ''nodes:'' @ concat (map (\<lambda>n. nid n @ '','') (snap_nodes sn)) @
     ''edges:'' @ concat (map (\<lambda>e. eid e @ '','') (snap_edges sn))"

definition env_ok :: save_env where
  "env_ok = \<lparr> thumbnail_result = Inr ''data:image/svg+xml;base64,AA'', save_result = Inr ''c1'' \<rparr>"

definition env_store_down :: save_env where
  "env_store_down = \<lparr> thumbnail_result = Inl (StoreError ''offline''),
                       save_result = Inl (StoreError ''offline'') \<rparr>"

definition env_no_thumbnail :: save_env where
  "env_no_thumbnail = \<lparr> thumbnail_result = Inl (StoreError ''no rows''), save_result = Inr ''c1'' \<rparr>"

definition example_session :: session where
  "example_session = initial_session\<lparr> graph := example_graph, isLoaded := True \<rparr>"

definition example_saved :: session where
  "example_saved = saveCanvasData example_stringify env_ok (closure_of example_session) example_session"

definition example_events :: "event list" where
  "example_events =
     [Command (CreateNode ''text'' \<lparr>px = 100, py = 100\<rparr>), TimerFires env_ok, ManualSaveKey env_ok,
      ViewportChange \<lparr>vx = 5, vy = 5, zoom = 2\<rparr>, TimerFires env_ok]"

text \<open>A store with one canvas of the default user, named \<open>Sketch\<close>.\<close>

definition example_store :: store where
  "example_store =
     \<lparr> canvases = [\<lparr> row_id = ''c1'', user_id = userId, canvas_name = ''Sketch'',
                      row_nodes = nodes example_graph, row_edges = edges example_graph,
                      row_viewport = \<lparr> vx = 0, vy = 0, zoom = 1 \<rparr>, thumbnail_url = None \<rparr>],
       canvas_shares = [], offline = False \<rparr>"

text \<open>
  A run from the empty canvas: two text nodes, the first copied, both originals deleted,
  the copy selected.
\<close>

definition example_trace :: "cmd list" where
  "example_trace =
     [CreateNode ''text'' \<lparr>px = 0, py = 0\<rparr>, CreateNode ''text'' \<lparr>px = 300, py = 0\<rparr>,
      MouseDown True \<lparr>px = -10, py = -10\<rparr>, MouseMove \<lparr>px = 260, py = 160\<rparr>, MouseUp,
      DuplicateSelected,
      MouseDown True \<lparr>px = -10, py = -10\<rparr>, MouseMove \<lparr>px = 560, py = 160\<rparr>, MouseUp,
      DeleteSelected, SelectAll]"

section \<open>Rounding\<close>

text \<open>
  Integers up to \<open>2^53\<close> are doubles, so sums that stay in this range are exact and are
  printed with all their digits; a sum beyond it is rounded to no less than \<open>2^53\<close>.
\<close>

lemma show_nat_digit: "n < 10 \<Longrightarrow> show_nat n = [digit_char n]"
  by (subst show_nat.simps) simp

lemma bit_length_le: "n < 2 ^ k \<Longrightarrow> bit_length n \<le> k"
proof (induction n arbitrary: k rule: bit_length.induct)
  case (1 n)
  show ?case
  proof (cases "n = 0")
    case True
    then show ?thesis by (simp add: bit_length.simps)
  next
    case False
    with 1(2) obtain j where k: "k = Suc j" by (cases k) auto
    with 1(2) have "n div 2 < 2 ^ j" by simp
    with 1(1) False have "bit_length (n div 2) \<le> j" by simp
    with False k show ?thesis by (subst bit_length.simps) simp
  qed
qed

lemma bit_length_lower: "0 < n \<Longrightarrow> 2 ^ (bit_length n - 1) \<le> n"
proof (induction n rule: bit_length.induct)
  case (1 n)
  show ?case
  proof (cases "n div 2 = 0")
    case True
    with 1(2) have "n = 1" by auto
    then show ?thesis by (simp add: bit_length.simps)
  next
    case False
    with 1 have ih: "2 ^ (bit_length (n div 2) - 1) \<le> n div 2" by simp
    from False have pos: "0 < bit_length (n div 2)" by (subst bit_length.simps) simp
    have "bit_length n = Suc (bit_length (n div 2))"
      using 1(2) by (subst bit_length.simps) simp
    then have "(2::nat) ^ (bit_length n - 1) = 2 * 2 ^ (bit_length (n div 2) - 1)"
      using pos by (cases "bit_length (n div 2)") simp_all
    also have "\<dots> \<le> 2 * (n div 2)" using ih by simp
    also have "\<dots> \<le> n" by simp
    finally show ?thesis .
  qed
qed

lemma bit_length_gt: "2 ^ k \<le> n \<Longrightarrow> k < bit_length n"
proof (rule ccontr)
  assume a: "2 ^ k \<le> n" and "\<not> k < bit_length n"
  then have "bit_length n \<le> k" by simp
  moreover have "n < 2 ^ bit_length n"
  proof (induction n rule: bit_length.induct)
    case (1 n)
    show ?case
    proof (cases "n = 0")
      case True
      then show ?thesis by simp
    next
      case False
      with 1 have "n div 2 < 2 ^ bit_length (n div 2)" by simp
      then have "n < 2 * 2 ^ bit_length (n div 2)" by linarith
      with False show ?thesis by (subst bit_length.simps) simp
    qed
  qed
  ultimately have "n < 2 ^ k"
    by (meson less_le_trans one_le_numeral power_increasing)
  with a show False by simp
qed

lemma js_round_exact: "n \<le> 2 ^ 53 \<Longrightarrow> js_round n = n"
proof (cases "n = 2 ^ 53")
  case True
  then show ?thesis by (simp add: js_round_def bit_length.simps Let_def infinity_def)
next
  case False
  assume "n \<le> 2 ^ 53"
  with False have lt: "n < 2 ^ 53" by simp
  then have "bit_length n - 53 = 0" using bit_length_le [of n 53] by simp
  moreover have "n < 2 ^ 1024"
    using lt by (rule less_trans) simp
  ultimately show ?thesis by (simp add: js_round_def Let_def)
qed

lemma js_round_large:
  assumes "2 ^ 53 \<le> n"
  shows "2 ^ 53 \<le> js_round n"
proof -
  let ?L = "bit_length n"
  let ?q = "(2::nat) ^ (?L - 53)"
  have L: "53 < ?L" using assms by (rule bit_length_gt)
  have pos: "0 < n" using assms by (simp add: less_le_trans [of 0 "2 ^ 53"])
  have low: "2 ^ (?L - 1) \<le> n" using pos by (rule bit_length_lower)
  have split: "(2::nat) ^ (?L - 1) = 2 ^ 52 * ?q"
  proof -
    have "?L - 1 = 52 + (?L - 53)" using L by simp
    then show ?thesis by (simp only: power_add)
  qed
  have "2 ^ 52 * ?q \<le> (n div ?q) * ?q"
  proof -
    have "2 ^ 52 \<le> n div ?q"
      using low split by (simp add: less_eq_div_iff_mult_less_eq)
    then show ?thesis by simp
  qed
  then have m: "2 ^ (?L - 1) \<le> (n div ?q) * ?q" using split by simp
  have big: "(2::nat) ^ 53 \<le> 2 ^ (?L - 1)"
    using L by (intro power_increasing) simp_all
  have v: "2 ^ 53 \<le> (if 2 * (n mod ?q) < ?q \<or> (2 * (n mod ?q) = ?q \<and> even (n div ?q))
                      then (n div ?q) * ?q else (n div ?q + 1) * ?q)"
    using m big by (auto simp: algebra_simps intro: order_trans)
  show ?thesis
    unfolding js_round_def Let_def infinity_def using v by simp
qed

lemma js_add_exact: "a + b \<le> 2 ^ 53 \<Longrightarrow> js_add a b = a + b"
  by (simp add: js_add_def js_round_exact)

lemma js_add_ge:
  assumes "m \<le> 2 ^ 53" "m \<le> a"
  shows "m \<le> js_add a b"
proof (cases "a + b \<le> 2 ^ 53")
  case True
  with assms(2) show ?thesis by (simp add: js_add_exact)
next
  case False
  then have "2 ^ 53 \<le> js_round (a + b)" by (intro js_round_large) simp
  with assms(1) show ?thesis by (simp add: js_add_def)
qed

lemma number_to_string_exact: "n \<le> 2 ^ 53 \<Longrightarrow> number_to_string n = show_nat n"
proof -
  assume a: "n \<le> 2 ^ 53"
  have "(2::nat) ^ 53 < 2 ^ 1024" by simp
  with a have "n < 2 ^ 1024" by (rule le_less_trans)
  with a show ?thesis by (simp add: number_to_string_def infinity_def)
qed


section \<open>Deleting the selection\<close>

lemma deleteSelected_nodes:
  "nodes (deleteSelected s) =
     filter (\<lambda>n. nid n \<notin> nid ` {m \<in> set (nodes s). selected m}) (nodes s)"
proof (cases "filter selected (nodes s) = []")
  case True
  then have h: "{m \<in> set (nodes s). selected m} = {}"
    by (auto simp: filter_empty_conv)
  have "deleteSelected s = s"
    using True by (simp add: deleteSelected_def)
  then show ?thesis unfolding h by simp
next
  case False
  then show ?thesis by (simp add: deleteSelected_def Let_def)
qed

lemma deleteSelected_edges:
  "edges (deleteSelected s) =
     filter (\<lambda>e. source e \<notin> nid ` {m \<in> set (nodes s). selected m} \<and>
                  target e \<notin> nid ` {m \<in> set (nodes s). selected m}) (edges s)"
proof (cases "filter selected (nodes s) = []")
  case True
  then have h: "{m \<in> set (nodes s). selected m} = {}"
    by (auto simp: filter_empty_conv)
  have "deleteSelected s = s"
    using True by (simp add: deleteSelected_def)
  then show ?thesis unfolding h by simp
next
  case False
  then show ?thesis by (simp add: deleteSelected_def Let_def)
qed

lemma deleted_ids:
  "nid ` (set (nodes s) - set (nodes (deleteSelected s))) = nid ` {m \<in> set (nodes s). selected m}"
  by (auto simp: deleteSelected_nodes)

lemma deleteSelected_ids:
  "set (map nid (nodes (deleteSelected s))) =
     set (map nid (nodes s)) - nid ` {m \<in> set (nodes s). selected m}"
  by (auto simp: deleteSelected_nodes)

lemma no_dangling_deleteSelected: "no_dangling s \<Longrightarrow> no_dangling (deleteSelected s)"
  unfolding no_dangling_def list_all_iff deleteSelected_ids
  by (simp add: deleteSelected_edges)

lemma no_dangling_mono:
  assumes "no_dangling s" "edges s' = edges s" "set (map nid (nodes s)) \<subseteq> set (map nid (nodes s'))"
  shows "no_dangling s'"
  using assms unfolding no_dangling_def list_all_iff by auto

lemma ids_selected_update [simp]: "map nid (map (\<lambda>n. n\<lparr>selected := f n\<rparr>) xs) = map nid xs"
  by (induction xs) simp_all

lemma exec_keeps_ids:
  assumes "c \<noteq> DeleteSelected"
  shows "edges (exec rt s c) = edges s \<and>
         set (map nid (nodes s)) \<subseteq> set (map nid (nodes (exec rt s c)))"
proof (cases c)
  case (CreateNode t p)
  then show ?thesis by (simp add: handleCreateNode_def Let_def) blast
next
  case (SelectAIModel m p)
  then show ?thesis by (simp add: handleSelectAIModel_def Let_def) blast
next
  case DeleteSelected
  with assms show ?thesis by simp
next
  case DuplicateSelected
  have "nid ` ((\<lambda>n. n\<lparr>selected := False\<rparr>) ` set (nodes s)) = nid ` set (nodes s)"
    by (simp add: image_image)
  then show ?thesis
    unfolding DuplicateSelected exec.simps duplicateSelectedNodes_def Let_def
    by (simp add: image_Un)
next
  case SelectAll
  have "map nid (map (\<lambda>n. n\<lparr>selected := True\<rparr>) (nodes s)) = map nid (nodes s)"
    by (rule ids_selected_update)
  then show ?thesis
    unfolding SelectAll exec.simps selectAll_def by (simp del: map_map)
next
  case (MouseDown onContainer p)
  then show ?thesis by (simp add: handleMouseDown_def)
next
  case (MouseMove p)
  show ?thesis
    unfolding MouseMove exec.simps handleMouseMove_def Let_def
    by (simp del: map_map set_map split: option.splits)
next
  case MouseUp
  then show ?thesis by (simp add: handleMouseUp_def)
qed

lemma no_dangling_exec: "no_dangling s \<Longrightarrow> no_dangling (exec rt s c)"
proof (cases "c = DeleteSelected")
  case True
  assume "no_dangling s"
  with True show ?thesis by (simp add: no_dangling_deleteSelected)
next
  case False
  assume "no_dangling s"
  then show ?thesis
    using exec_keeps_ids [OF False, of rt s] by (blast intro: no_dangling_mono)
qed

lemma no_dangling_run: "no_dangling s \<Longrightarrow> no_dangling (run rt cs s)"
  unfolding run_def by (induction cs arbitrary: s) (simp_all add: no_dangling_exec)

text \<open>
  C1. Delete-selected removes every selected node (a node stays exactly when its id is the
  id of no selected node) and keeps exactly the edges with no endpoint among the ids of the
  deleted nodes, in their order; and a graph without dangling edges has none after any
  sequence of canvas commands, node additions and deletions among them.
\<close>

theorem deleteSelected_removes_incident_edges:
  "(\<forall>n \<in> set (nodes s). selected n \<longrightarrow> n \<notin> set (nodes (deleteSelected s)))
   \<and> (\<forall>n. n \<in> set (nodes (deleteSelected s)) \<longleftrightarrow>
            n \<in> set (nodes s) \<and> nid n \<notin> nid ` {m \<in> set (nodes s). selected m})
   \<and> edges (deleteSelected s) =
       filter (\<lambda>e. \<not> (source e \<in> nid ` (set (nodes s) - set (nodes (deleteSelected s))) \<or>
                        target e \<in> nid ` (set (nodes s) - set (nodes (deleteSelected s)))))
              (edges s)
   \<and> (no_dangling s \<longrightarrow> no_dangling (run rt cs s))"
proof (intro conjI)
  show "\<forall>n \<in> set (nodes s). selected n \<longrightarrow> n \<notin> set (nodes (deleteSelected s))"
    by (auto simp: deleteSelected_nodes)
  show "\<forall>n. n \<in> set (nodes (deleteSelected s)) \<longleftrightarrow>
            n \<in> set (nodes s) \<and> nid n \<notin> nid ` {m \<in> set (nodes s). selected m}"
    by (auto simp: deleteSelected_nodes)
  show "edges (deleteSelected s) =
       filter (\<lambda>e. \<not> (source e \<in> nid ` (set (nodes s) - set (nodes (deleteSelected s))) \<or>
                        target e \<in> nid ` (set (nodes s) - set (nodes (deleteSelected s)))))
              (edges s)"
    unfolding deleted_ids by (simp add: deleteSelected_edges)
  show "no_dangling s \<longrightarrow> no_dangling (run rt cs s)"
    by (simp add: no_dangling_run)
qed

theorem deleteSelected_removes_incident_edges_witness:
  "no_dangling example_graph
   \<and> map nid (nodes (deleteSelected example_graph)) = [''text-2'', ''image-3'']
   \<and> map eid (edges (deleteSelected example_graph)) = [''e2'']
   \<and> no_dangling (run example_rt [CreateNode ''text'' \<lparr>px = 1, py = 2\<rparr>, DeleteSelected]
                      example_graph)"
  using deleteSelected_removes_incident_edges
          [of example_graph example_rt "[CreateNode ''text'' \<lparr>px = 1, py = 2\<rparr>, DeleteSelected]"]
  by (simp add: example_graph_def deleteSelected_def no_dangling_def)


section \<open>Marquee selection\<close>

text \<open>
  The four comparisons of the handler say that the box of the node lies within the
  rectangle, provided the computed far corner is not below the near one.
\<close>

lemma node_in_box_iff_bounds:
  assumes "px (position n) \<le> add rt (px (position n)) 250"
    and "py (position n) \<le> add rt (py (position n)) 150"
  shows "node_in_box rt a b n \<longleftrightarrow> node_bounds rt n \<subseteq> rect_region a b"
proof
  assume "node_in_box rt a b n"
  then show "node_bounds rt n \<subseteq> rect_region a b"
    by (auto simp: node_in_box_def node_bounds_def rect_region_def Let_def)
next
  assume sub: "node_bounds rt n \<subseteq> rect_region a b"
  have "(px (position n), py (position n)) \<in> node_bounds rt n"
    using assms by (simp add: node_bounds_def)
  moreover have "(add rt (px (position n)) 250, add rt (py (position n)) 150) \<in> node_bounds rt n"
    using assms by (simp add: node_bounds_def)
  ultimately have "(px (position n), py (position n)) \<in> rect_region a b"
    and "(add rt (px (position n)) 250, add rt (py (position n)) 150) \<in> rect_region a b"
    using sub by blast+
  then show "node_in_box rt a b n"
    by (simp add: node_in_box_def rect_region_def Let_def)
qed

lemma member_ids_filter:
  assumes "distinct (map nid ns)" "n \<in> set ns"
  shows "nid n \<in> set (map nid (filter P ns)) \<longleftrightarrow> P n"
proof
  assume "nid n \<in> set (map nid (filter P ns))"
  then obtain m where m: "m \<in> set ns" "P m" "nid m = nid n" by auto
  from assms(1) have "inj_on nid (set ns)" by (simp add: distinct_map)
  with m assms(2) have "m = n" by (auto dest: inj_onD)
  with m show "P n" by simp
next
  assume "P n"
  with assms(2) show "nid n \<in> set (map nid (filter P ns))" by auto
qed

lemma handleMouseMove_nodes:
  assumes "isSelecting s" "selectionStart s = Some st"
  shows "nodes (handleMouseMove rt m s) =
           map (\<lambda>n. n\<lparr>selected := nid n \<in> set (map nid (filter
                  (node_in_box rt
                     (screenToFlowPosition rt \<lparr>px = min (px st) (px m), py = min (py st) (py m)\<rparr>)
                     (screenToFlowPosition rt \<lparr>px = max (px st) (px m), py = max (py st) (py m)\<rparr>))
                  (nodes s)))\<rparr>) (nodes s)"
  using assms by (simp add: handleMouseMove_def Let_def)

text \<open>
  Whatever the ids are, the handler selects by id: a node becomes selected exactly when
  some node with its id passes the four comparisons.
\<close>

lemma handleMouseMove_selects_by_id:
  assumes "isSelecting s" and "selectionStart s = Some st" and "i < length (nodes s)"
  shows "selected (nodes (handleMouseMove rt m s) ! i) \<longleftrightarrow>
           (\<exists>n \<in> set (nodes s). nid n = nid (nodes s ! i) \<and>
              node_in_box rt
                (screenToFlowPosition rt \<lparr>px = min (px st) (px m), py = min (py st) (py m)\<rparr>)
                (screenToFlowPosition rt \<lparr>px = max (px st) (px m), py = max (py st) (py m)\<rparr>) n)"
  using assms(3)
  by (simp add: handleMouseMove_nodes [OF assms(1,2)] image_iff) (metis (mono_tags, lifting))

text \<open>
  C9 (amended). During a marquee drag over a graph with pairwise distinct node ids, a node
  becomes selected exactly when its bounding box, from its position to the computed sums
  with 250 and 150, lies entirely within the rectangle between the converted corners;
  every other field of the node is kept. The result does not depend on the drag
  direction: swapping start and current point, or dragging along the other diagonal,
  selects the same nodes. Of the addition only this is used: adding 250 or 150 to a
  coordinate gives no less than the coordinate.
\<close>

theorem marquee_selects_contained_nodes:
  assumes "isSelecting s" and "selectionStart s = Some st"
    and "distinct (map nid (nodes s))" and "i < length (nodes s)"
    and "\<forall>x. x \<le> add rt x 250 \<and> x \<le> add rt x 150"
  shows "(selected (nodes (handleMouseMove rt m s) ! i) \<longleftrightarrow>
            node_bounds rt (nodes s ! i) \<subseteq>
              rect_region
                (screenToFlowPosition rt \<lparr>px = min (px st) (px m), py = min (py st) (py m)\<rparr>)
                (screenToFlowPosition rt \<lparr>px = max (px st) (px m), py = max (py st) (py m)\<rparr>))
         \<and> nodes (handleMouseMove rt m s) ! i =
             (nodes s ! i)\<lparr>selected := selected (nodes (handleMouseMove rt m s) ! i)\<rparr>
         \<and> nodes (handleMouseMove rt st (s\<lparr>selectionStart := Some m\<rparr>)) =
             nodes (handleMouseMove rt m s)
         \<and> nodes (handleMouseMove rt \<lparr>px = px st, py = py m\<rparr>
                    (s\<lparr>selectionStart := Some \<lparr>px = px m, py = py st\<rparr>\<rparr>)) =
             nodes (handleMouseMove rt m s)"
proof (intro conjI)
  let ?a = "screenToFlowPosition rt \<lparr>px = min (px st) (px m), py = min (py st) (py m)\<rparr>"
  let ?b = "screenToFlowPosition rt \<lparr>px = max (px st) (px m), py = max (py st) (py m)\<rparr>"
  have mem: "nodes s ! i \<in> set (nodes s)" using assms(4) by simp
  have sel: "selected (nodes (handleMouseMove rt m s) ! i) \<longleftrightarrow> node_in_box rt ?a ?b (nodes s ! i)"
    using assms(4) member_ids_filter [OF assms(3) mem, of "node_in_box rt ?a ?b"]
    by (simp add: handleMouseMove_nodes [OF assms(1,2)] del: set_map)
  have "node_in_box rt ?a ?b (nodes s ! i) \<longleftrightarrow> node_bounds rt (nodes s ! i) \<subseteq> rect_region ?a ?b"
    using assms(5) by (intro node_in_box_iff_bounds) simp_all
  with sel show "selected (nodes (handleMouseMove rt m s) ! i) \<longleftrightarrow>
            node_bounds rt (nodes s ! i) \<subseteq> rect_region ?a ?b"
    by simp
  show "nodes (handleMouseMove rt m s) ! i =
             (nodes s ! i)\<lparr>selected := selected (nodes (handleMouseMove rt m s) ! i)\<rparr>"
    using assms(4) by (simp add: handleMouseMove_nodes [OF assms(1,2)])
  show "nodes (handleMouseMove rt st (s\<lparr>selectionStart := Some m\<rparr>)) =
             nodes (handleMouseMove rt m s)"
    using assms(1,2) by (simp add: handleMouseMove_def Let_def min.commute max.commute)
  show "nodes (handleMouseMove rt \<lparr>px = px st, py = py m\<rparr>
                    (s\<lparr>selectionStart := Some \<lparr>px = px m, py = py st\<rparr>\<rparr>)) =
             nodes (handleMouseMove rt m s)"
    using assms(1,2) by (simp add: handleMouseMove_def Let_def min.commute max.commute)
qed

theorem marquee_selects_contained_nodes_witness:
  "selected (nodes (handleMouseMove example_rt \<lparr>px = -10, py = -10\<rparr> example_drag) ! 0)
   \<and> node_bounds example_rt (nodes example_drag ! 0) \<subseteq>
       rect_region \<lparr>px = -10, py = -10\<rparr> \<lparr>px = 400, py = 160\<rparr>
   \<and> \<not> selected (nodes (handleMouseMove example_rt \<lparr>px = -10, py = -10\<rparr> example_drag) ! 1)
   \<and> \<not> node_bounds example_rt (nodes example_drag ! 1) \<subseteq>
         rect_region \<lparr>px = -10, py = -10\<rparr> \<lparr>px = 400, py = 160\<rparr>
   \<and> (350, 10) \<in> node_bounds example_rt (nodes example_drag ! 1) \<inter>
                   rect_region \<lparr>px = -10, py = -10\<rparr> \<lparr>px = 400, py = 160\<rparr>"
  using marquee_selects_contained_nodes
          [of example_drag "\<lparr>px = 400, py = 160\<rparr>" 0 example_rt "\<lparr>px = -10, py = -10\<rparr>"]
        marquee_selects_contained_nodes
          [of example_drag "\<lparr>px = 400, py = 160\<rparr>" 1 example_rt "\<lparr>px = -10, py = -10\<rparr>"]
  by (simp add: example_drag_def example_graph_def example_rt_def handleMouseDown_def
        selectAll_def handleMouseMove_def node_in_box_def Let_def node_bounds_def
        rect_region_def)

text \<open>
  C9 as stated fails on a graph in which two nodes share an id. After two text nodes were
  created, selected and duplicated, both copies are named \<open>text-5\<close>. A marquee from
  (-10, -10) to (310, 210) contains the box of the copy at (50, 50), and the copy at
  (350, 50), whose box lies outside, is selected with it.
\<close>

theorem marquee_selects_twin_outside:
  "map nid (nodes example_twins) = [''text-1'', ''text-2'', ''text-5'', ''text-5'']
   \<and> position (nodes example_twins ! 3) = \<lparr>px = 350, py = 50\<rparr>
   \<and> selected (nodes (handleMouseMove example_rt \<lparr>px = 310, py = 210\<rparr> example_twins) ! 3)
   \<and> \<not> node_bounds example_rt (nodes example_twins ! 3) \<subseteq>
         rect_region (screenToFlowPosition example_rt \<lparr>px = -10, py = -10\<rparr>)
                     (screenToFlowPosition example_rt \<lparr>px = 310, py = 210\<rparr>)"
proof -
  have twins: "nodes example_twins =
      [\<lparr> nid = ''text-1'', ntype = Some ''textNode'', position = \<lparr>px = 0, py = 0\<rparr>,
          selected = False, data = initial_data ''text'' \<rparr>,
       \<lparr> nid = ''text-2'', ntype = Some ''textNode'', position = \<lparr>px = 300, py = 0\<rparr>,
          selected = False, data = initial_data ''text'' \<rparr>,
       \<lparr> nid = ''text-5'', ntype = Some ''textNode'', position = \<lparr>px = 50, py = 50\<rparr>,
          selected = False,
          data = (initial_data ''text'')\<lparr> title := Some ''Text Input Copy'' \<rparr> \<rparr>,
       \<lparr> nid = ''text-5'', ntype = Some ''textNode'', position = \<lparr>px = 350, py = 50\<rparr>,
          selected = False,
          data = (initial_data ''text'')\<lparr> title := Some ''Text Input Copy'' \<rparr> \<rparr>]"
    by (simp add: example_twins_def example_pair_def example_rt_def run_def initial_canvas_def
          handleCreateNode_def handleMouseDown_def selectAll_def duplicateSelectedNodes_def
          dup_node_def dup_prefix_def dup_title_def node_type_of_def initial_data_def
          new_node_id_def number_to_string_exact js_add_exact show_nat_digit digit_char_def
          Let_def)
  have start: "isSelecting example_twins" "selectionStart example_twins = Some \<lparr>px = -10, py = -10\<rparr>"
    by (simp_all add: example_twins_def handleMouseDown_def)
  have sel: "selected (nodes (handleMouseMove example_rt \<lparr>px = 310, py = 210\<rparr> example_twins) ! 3)"
    by (simp add: handleMouseMove_nodes [OF start] twins example_rt_def node_in_box_def Let_def)
  have inside: "(350, 50) \<in> node_bounds example_rt (nodes example_twins ! 3)"
    by (simp add: twins node_bounds_def example_rt_def)
  have outside: "(350, 50) \<notin> rect_region (screenToFlowPosition example_rt \<lparr>px = -10, py = -10\<rparr>)
                                       (screenToFlowPosition example_rt \<lparr>px = 310, py = 210\<rparr>)"
    by (simp add: rect_region_def example_rt_def)
  from inside outside
  have "\<not> node_bounds example_rt (nodes example_twins ! 3) \<subseteq>
         rect_region (screenToFlowPosition example_rt \<lparr>px = -10, py = -10\<rparr>)
                     (screenToFlowPosition example_rt \<lparr>px = 310, py = 210\<rparr>)"
    by blast
  with sel show ?thesis by (simp add: twins)
qed


section \<open>Seeding the id counter on load\<close>

lemma digit_cases: "d < 10 \<Longrightarrow> d \<in> {0, 1, 2, 3, 4, 5, 6, 7, 8, 9::nat}"
  by auto

lemma digit_val_digit_char: "d < 10 \<Longrightarrow> digit_val (digit_char d) = d"
  by (drule digit_cases) (auto simp: digit_val_def digit_char_def)

lemma is_digit_digit_char: "d < 10 \<Longrightarrow> is_digit (digit_char d)"
  by (drule digit_cases) (auto simp: is_digit_def digit_char_def)

lemma hyphen_no_digit: "\<not> is_digit CHR ''-''"
  by (simp add: is_digit_def)

lemma show_nat_digits: "\<forall>c \<in> set (show_nat n). is_digit c"
proof (induction n rule: show_nat.induct)
  case (1 n)
  show ?case
  proof (cases "n < 10")
    case True
    then show ?thesis by (subst show_nat.simps) (simp add: is_digit_digit_char)
  next
    case False
    with 1 show ?thesis by (subst show_nat.simps) (simp add: is_digit_digit_char)
  qed
qed

lemma show_nat_nonempty: "show_nat n \<noteq> []"
  by (subst show_nat.simps) simp

lemma parse_nat_snoc: "parse_nat (ds @ [c]) = 10 * parse_nat ds + digit_val c"
  by (simp add: parse_nat_def)

lemma parse_show_nat: "parse_nat (show_nat n) = n"
proof (induction n rule: show_nat.induct)
  case (1 n)
  show ?case
  proof (cases "n < 10")
    case True
    then show ?thesis
      by (subst show_nat.simps) (simp add: parse_nat_def digit_val_digit_char)
  next
    case False
    with 1 have "parse_nat (show_nat (n div 10)) = n div 10" by simp
    with False show ?thesis
      by (subst show_nat.simps) (simp add: parse_nat_snoc digit_val_digit_char)
  qed
qed

text \<open>The left-to-right evaluation of the digits gives the positional value.\<close>

lemma decimal_value_snoc: "decimal_value (ds @ [c]) = 10 * decimal_value ds + digit_val c"
proof -
  have "(\<Sum>i < length ds. digit_val ((ds @ [c]) ! i) * 10 ^ (length ds - i)) =
        (\<Sum>i < length ds. 10 * (digit_val (ds ! i) * 10 ^ (length ds - 1 - i)))"
  proof (rule sum.cong)
    fix i
    assume "i \<in> {..<length ds}"
    then have i: "i < length ds" by simp
    then have "length ds - i = Suc (length ds - 1 - i)" by simp
    with i show "digit_val ((ds @ [c]) ! i) * 10 ^ (length ds - i) =
                 10 * (digit_val (ds ! i) * 10 ^ (length ds - 1 - i))"
      by (simp add: nth_append)
  qed simp
  then show ?thesis
    by (simp add: decimal_value_def sum_distrib_left)
qed

lemma parse_nat_decimal: "parse_nat ds = decimal_value ds"
proof (induction ds rule: rev_induct)
  case Nil
  show ?case by (simp add: parse_nat_def decimal_value_def)
next
  case (snoc c ds)
  then show ?case by (simp add: parse_nat_snoc decimal_value_snoc)
qed

text \<open>The pattern finds exactly the ids that end in a hyphen and a run of digits.\<close>

lemma match_suffix_digits:
  assumes "ds \<noteq> []" and "\<forall>c \<in> set ds. is_digit c"
  shows "match_suffix (p @ ''-'' @ ds) = Some ds"
proof -
  have r: "rev (p @ ''-'' @ ds) = rev ds @ CHR ''-'' # rev p"
    by simp
  have d: "\<forall>c \<in> set (rev ds). is_digit c"
    using assms(2) by simp
  have t: "takeWhile is_digit (rev ds @ CHR ''-'' # rev p) = rev ds"
    using d takeWhile_append2 [of "rev ds" is_digit "CHR ''-'' # rev p"]
    by (simp add: hyphen_no_digit)
  have dr: "dropWhile is_digit (rev ds @ CHR ''-'' # rev p) = CHR ''-'' # rev p"
    using d dropWhile_append2 [of "rev ds" is_digit "CHR ''-'' # rev p"]
    by (simp add: hyphen_no_digit)
  show ?thesis
    unfolding match_suffix_def r t dr using assms(1) by simp
qed

lemma match_suffix_SomeD:
  assumes "match_suffix s = Some ds"
  shows "\<exists>p. s = p @ ''-'' @ ds \<and> ds \<noteq> [] \<and> (\<forall>c \<in> set ds. is_digit c)"
proof -
  let ?t = "takeWhile is_digit (rev s)"
  let ?r = "dropWhile is_digit (rev s)"
  from assms have ds: "ds = rev ?t" and ne: "ds \<noteq> []" and r: "?r \<noteq> []" "hd ?r = CHR ''-''"
    by (auto simp: match_suffix_def Let_def split: if_splits)
  from r have r': "?r = CHR ''-'' # tl ?r" by (cases ?r) auto
  have "rev s = ?t @ ?r" by simp
  then have "s = rev ?r @ rev ?t" by (metis rev_append rev_rev_ident)
  also have "rev ?r = rev (tl ?r) @ ''-''" by (subst r') simp
  finally have "s = rev (tl ?r) @ ''-'' @ ds" by (simp add: ds)
  moreover have "\<forall>c \<in> set ds. is_digit c"
    unfolding ds by (auto dest: set_takeWhileD)
  ultimately show ?thesis using ne by blast
qed

lemma numeric_suffix_iff:
  "numeric_suffix s n \<longleftrightarrow> (\<exists>ds. match_suffix s = Some ds \<and> n = parseInt10 ds)"
proof
  assume "numeric_suffix s n"
  then obtain p ds where s: "s = p @ ''-'' @ ds" and ds: "ds \<noteq> []" "\<forall>c \<in> set ds. is_digit c"
    and n: "n = js_round (decimal_value ds)"
    unfolding numeric_suffix_def by blast
  have "match_suffix s = Some ds"
    unfolding s using ds by (rule match_suffix_digits)
  moreover have "n = parseInt10 ds"
    unfolding n parseInt10_def parse_nat_decimal ..
  ultimately show "\<exists>ds. match_suffix s = Some ds \<and> n = parseInt10 ds" by blast
next
  assume "\<exists>ds. match_suffix s = Some ds \<and> n = parseInt10 ds"
  then obtain ds where m: "match_suffix s = Some ds" and n: "n = parseInt10 ds" by blast
  from match_suffix_SomeD [OF m] n show "numeric_suffix s n"
    unfolding numeric_suffix_def parseInt10_def parse_nat_decimal by blast
qed

text \<open>
  The number that the load reads off an id is its numeric suffix, and 0 when it has none.
\<close>

lemma id_suffix_spec:
  "(numeric_suffix s n \<longrightarrow> id_suffix s = n) \<and> ((\<nexists>k. numeric_suffix s k) \<longrightarrow> id_suffix s = 0)"
  by (auto simp: numeric_suffix_iff id_suffix_def split: option.splits)

text \<open>An id built by a template \<^verbatim>\<open>`${prefix}-${k}`\<close> has the numeric suffix \<open>k\<close>, up to \<open>2^53\<close>.\<close>

lemma id_suffix_templated:
  assumes "k \<le> 2 ^ 53"
  shows "id_suffix (p @ ''-'' @ number_to_string k) = k"
proof -
  have "match_suffix (p @ ''-'' @ show_nat k) = Some (show_nat k)"
    using show_nat_nonempty show_nat_digits by (rule match_suffix_digits)
  then show ?thesis
    using assms
    by (simp only: id_suffix_def number_to_string_exact option.case parseInt10_def
          parse_show_nat js_round_exact)
qed

lemma foldl_max_Max: "foldl max (a::nat) xs = Max (insert a (set xs))"
proof (induction xs arbitrary: a)
  case Nil
  show ?case by simp
next
  case (Cons x xs)
  have "Max (insert (max a x) (set xs)) = Max (insert a (insert x (set xs)))"
    by (cases "set xs = {}") (simp_all add: max.assoc)
  with Cons show ?case by simp
qed

lemma max_suffix_Max: "max_suffix ns = Max (insert 0 ((\<lambda>n. id_suffix (nid n)) ` set ns))"
  by (simp add: max_suffix_def foldl_max_Max)

lemma max_suffix_ge: "n \<in> set ns \<Longrightarrow> id_suffix (nid n) \<le> max_suffix ns"
  unfolding max_suffix_Max by (rule Max_ge) auto

lemma suffix_set:
  "insert 0 ((\<lambda>m. id_suffix (nid m)) ` set ns) =
   insert 0 {n. \<exists>m \<in> set ns. numeric_suffix (nid m) n}"
proof (intro equalityI subsetI)
  fix x
  assume "x \<in> insert 0 ((\<lambda>m. id_suffix (nid m)) ` set ns)"
  then consider "x = 0" | m where "m \<in> set ns" "x = id_suffix (nid m)" by auto
  then show "x \<in> insert 0 {n. \<exists>m \<in> set ns. numeric_suffix (nid m) n}"
  proof cases
    case 1
    then show ?thesis by simp
  next
    case 2
    show ?thesis
    proof (cases "match_suffix (nid m)")
      case None
      with 2 show ?thesis by (simp add: id_suffix_def)
    next
      case (Some ds)
      with 2 have "numeric_suffix (nid m) x"
        by (simp add: numeric_suffix_iff id_suffix_def)
      with 2 show ?thesis by blast
    qed
  qed
next
  fix x
  assume "x \<in> insert 0 {n. \<exists>m \<in> set ns. numeric_suffix (nid m) n}"
  then consider "x = 0" | m where "m \<in> set ns" "numeric_suffix (nid m) x" by auto
  then show "x \<in> insert 0 ((\<lambda>m. id_suffix (nid m)) ` set ns)"
  proof cases
    case 1
    then show ?thesis by simp
  next
    case 2
    then have "id_suffix (nid m) = x" using id_suffix_spec by blast
    with 2 show ?thesis by blast
  qed
qed

text \<open>
  The seed in general: the double sum of the largest numeric suffix (0 without any) and 1.
\<close>

lemma load_seed:
  "nodeIdCounter (graph (apply_load canvasId (Inr (Some cd)) s)) =
     js_add (Max (insert 0 {n. \<exists>m \<in> set (or_empty (l_nodes cd)). numeric_suffix (nid m) n})) 1"
  by (simp add: apply_load_def Let_def max_suffix_Max suffix_set)

text \<open>No command lowers the counter below a bound that is a double integer up to \<open>2^53\<close>.\<close>

lemma counter_bound_exec:
  assumes "b \<le> 2 ^ 53" and "b \<le> nodeIdCounter s"
  shows "b \<le> nodeIdCounter (exec rt s c)"
proof (cases c)
  case (CreateNode t pos)
  then show ?thesis using js_add_ge [OF assms] by (simp add: handleCreateNode_def Let_def)
next
  case (SelectAIModel m pos)
  then show ?thesis using js_add_ge [OF assms] by (simp add: handleSelectAIModel_def Let_def)
next
  case DeleteSelected
  then show ?thesis using assms(2) by (simp add: deleteSelected_def Let_def)
next
  case DuplicateSelected
  then show ?thesis
    using assms(2) js_add_ge [OF assms] by (simp add: duplicateSelectedNodes_def Let_def)
next
  case SelectAll
  then show ?thesis using assms(2) by (simp add: selectAll_def)
next
  case (MouseDown onContainer pos)
  then show ?thesis using assms(2) by (simp add: handleMouseDown_def)
next
  case (MouseMove pos)
  then show ?thesis
    using assms(2) by (simp add: handleMouseMove_def Let_def split: option.splits)
next
  case MouseUp
  then show ?thesis using assms(2) by (simp add: handleMouseUp_def)
qed

lemma counter_bound_run:
  assumes "b \<le> 2 ^ 53" and "b \<le> nodeIdCounter s"
  shows "b \<le> nodeIdCounter (run rt cs s)"
  using assms(2) unfolding run_def
proof (induction cs arbitrary: s)
  case Nil
  then show ?case by simp
next
  case (Cons c cs)
  have "b \<le> nodeIdCounter (exec rt s c)"
    using assms(1) Cons.prems by (rule counter_bound_exec)
  then show ?case using Cons.IH by simp
qed

text \<open>
  The nodes that a command adds are those behind the old ones in the new list. Each of
  their ids is a template id; its number is the counter, or the double sum of the counter
  and the node count.
\<close>

lemma new_nodes_templated:
  assumes "n \<in> set (drop (length (nodes g)) (nodes (exec rt g c)))"
  shows "\<exists>p k. nid n = p @ ''-'' @ number_to_string k \<and>
               (k = nodeIdCounter g \<or> k = js_add (nodeIdCounter g) (length (nodes g)))"
proof (cases c)
  case (CreateNode t pos)
  with assms have "nid n = t @ ''-'' @ number_to_string (nodeIdCounter g)"
    by (simp add: handleCreateNode_def new_node_id_def Let_def)
  then show ?thesis by blast
next
  case (SelectAIModel m pos)
  with assms have "nid n = ''aiModel'' @ ''-'' @ number_to_string (nodeIdCounter g)"
    by (simp add: handleSelectAIModel_def Let_def)
  then show ?thesis by blast
next
  case DeleteSelected
  have "length (nodes (deleteSelected g)) \<le> length (nodes g)"
    by (simp add: deleteSelected_nodes)
  with assms DeleteSelected show ?thesis by simp
next
  case DuplicateSelected
  show ?thesis
  proof (cases "filter selected (nodes g) = []")
    case True
    with assms DuplicateSelected show ?thesis by (simp add: duplicateSelectedNodes_def)
  next
    case False
    with assms DuplicateSelected
    obtain m where "n = dup_node rt (js_add (nodeIdCounter g) (length (nodes g))) m"
      by (auto simp: duplicateSelectedNodes_def Let_def)
    then have "nid n = dup_prefix m @ ''-'' @
                 number_to_string (js_add (nodeIdCounter g) (length (nodes g)))"
      by (simp add: dup_node_def)
    then show ?thesis by blast
  qed
next
  case SelectAll
  with assms show ?thesis by (simp add: selectAll_def)
next
  case (MouseDown onContainer pos)
  with assms show ?thesis by (simp add: handleMouseDown_def)
next
  case (MouseMove pos)
  with assms show ?thesis by (simp add: handleMouseMove_def Let_def split: option.splits if_splits)
next
  case MouseUp
  with assms show ?thesis by (simp add: handleMouseUp_def)
qed

text \<open>
  C7 (amended). When the load finds a canvas whose numeric suffixes are all below \<open>2^53\<close>,
  the counter becomes one plus the largest numeric suffix of the loaded node ids (0 for
  an id without one, and 0 when there is no node). Afterwards, whatever commands have run,
  deletions included, no node added by the next command has the id of a loaded node, as
  long as the counter plus the number of nodes does not exceed \<open>2^53\<close>.
\<close>

theorem load_seeds_counter_above_saved_ids:
  assumes "\<forall>m \<in> set (or_empty (l_nodes cd)). \<forall>n. numeric_suffix (nid m) n \<longrightarrow> n < 2 ^ 53"
  shows "nodeIdCounter (graph (apply_load canvasId (Inr (Some cd)) s)) =
           Max (insert 0 {n. \<exists>m \<in> set (or_empty (l_nodes cd)). numeric_suffix (nid m) n}) + 1
       \<and> (nodeIdCounter (run rt cs (graph (apply_load canvasId (Inr (Some cd)) s))) +
            length (nodes (run rt cs (graph (apply_load canvasId (Inr (Some cd)) s)))) \<le> 2 ^ 53 \<longrightarrow>
          (\<forall>n \<in> set (drop (length (nodes (run rt cs (graph (apply_load canvasId (Inr (Some cd)) s)))))
                        (nodes (exec rt (run rt cs (graph (apply_load canvasId (Inr (Some cd)) s))) c))).
             nid n \<notin> nid ` set (or_empty (l_nodes cd))))"
proof (intro conjI impI)
  let ?init = "graph (apply_load canvasId (Inr (Some cd)) s)"
  let ?L = "or_empty (l_nodes cd)"
  let ?S = "insert 0 {n. \<exists>m \<in> set ?L. numeric_suffix (nid m) n}"
  let ?g = "run rt cs ?init"
  have S: "?S = insert 0 ((\<lambda>m. id_suffix (nid m)) ` set ?L)"
    by (rule suffix_set [symmetric])
  have fin: "finite ?S" unfolding S by simp
  have "\<forall>n \<in> ?S. n < (2::nat) ^ 53" using assms by auto
  then have small: "Max ?S < 2 ^ 53" using fin by simp
  have mx: "max_suffix ?L = Max ?S" unfolding S by (rule max_suffix_Max)
  have c0: "nodeIdCounter ?init = Max ?S + 1"
    unfolding load_seed using small by (simp add: js_add_exact)
  then show "nodeIdCounter ?init = Max ?S + 1" .
  assume range: "nodeIdCounter ?g + length (nodes ?g) \<le> 2 ^ 53"
  have seed: "Max ?S + 1 \<le> 2 ^ 53" using small by simp
  have low: "Max ?S + 1 \<le> nodeIdCounter ?g"
    using seed c0 by (intro counter_bound_run) simp_all
  show "\<forall>n \<in> set (drop (length (nodes ?g)) (nodes (exec rt ?g c))). nid n \<notin> nid ` set ?L"
  proof
    fix n
    assume "n \<in> set (drop (length (nodes ?g)) (nodes (exec rt ?g c)))"
    then obtain p k where n: "nid n = p @ ''-'' @ number_to_string k"
      and k: "k = nodeIdCounter ?g \<or> k = js_add (nodeIdCounter ?g) (length (nodes ?g))"
      using new_nodes_templated by blast
    from k range have kk: "k \<le> 2 ^ 53" "nodeIdCounter ?g \<le> k"
      by (auto simp: js_add_exact)
    with low have big: "Max ?S < k" by simp
    show "nid n \<notin> nid ` set ?L"
    proof
      assume "nid n \<in> nid ` set ?L"
      then obtain m where m: "m \<in> set ?L" and e: "nid m = nid n" by auto
      have "id_suffix (nid m) \<le> max_suffix ?L" using m by (rule max_suffix_ge)
      moreover have "id_suffix (nid m) = k" unfolding e n using kk(1) by (rule id_suffix_templated)
      ultimately show False using big mx by simp
    qed
  qed
qed

lemmas suffix_eval =
  numeric_suffix_iff id_suffix_def match_suffix_def parseInt10_def parse_nat_def is_digit_def
  digit_val_def js_round_exact

theorem load_seeds_counter_above_saved_ids_witness:
  "numeric_suffix ''image-3'' 3
   \<and> nodeIdCounter (graph (apply_load None (Inr (Some example_loaded)) initial_session)) = 4
   \<and> map nid (nodes (exec example_rt (run example_rt [DeleteSelected]
                 (graph (apply_load None (Inr (Some example_loaded)) initial_session)))
                 (CreateNode ''text'' \<lparr>px = 5, py = 5\<rparr>))) = [''text-2'', ''image-3'', ''text-4'']
   \<and> ''text-4'' \<notin> nid ` set (or_empty (l_nodes example_loaded))"
proof -
  have h: "\<forall>m \<in> set (or_empty (l_nodes example_loaded)). \<forall>n. numeric_suffix (nid m) n \<longrightarrow> n < 2 ^ 53"
    by (simp add: example_loaded_def spread_row_def example_graph_def or_empty_def suffix_eval)
  have seed: "nodeIdCounter (graph (apply_load None (Inr (Some example_loaded)) initial_session)) = 4"
    by (simp add: apply_load_def example_loaded_def spread_row_def example_graph_def Let_def
          or_empty_def max_suffix_def suffix_eval js_add_exact)
  have later: "nodeIdCounter (run example_rt [DeleteSelected]
                   (graph (apply_load None (Inr (Some example_loaded)) initial_session))) +
               length (nodes (run example_rt [DeleteSelected]
                   (graph (apply_load None (Inr (Some example_loaded)) initial_session)))) \<le> 2 ^ 53 \<longrightarrow>
          (\<forall>n \<in> set (drop (length (nodes (run example_rt [DeleteSelected]
                              (graph (apply_load None (Inr (Some example_loaded)) initial_session)))))
                        (nodes (exec example_rt (run example_rt [DeleteSelected]
                              (graph (apply_load None (Inr (Some example_loaded)) initial_session)))
                           (CreateNode ''text'' \<lparr>px = 5, py = 5\<rparr>)))).
             nid n \<notin> nid ` set (or_empty (l_nodes example_loaded)))"
    using load_seeds_counter_above_saved_ids
            [OF h, of None initial_session example_rt "[DeleteSelected]"
               "CreateNode ''text'' \<lparr>px = 5, py = 5\<rparr>"]
    by (rule conjunct2)
  have three: "numeric_suffix ''image-3'' 3"
    by (simp add: suffix_eval)
  show ?thesis
    using three seed later
    by (simp add: apply_load_def example_loaded_def spread_row_def example_graph_def Let_def
          or_empty_def max_suffix_def truthy_def initial_session_def
          initial_canvas_def run_def deleteSelected_def handleCreateNode_def new_node_id_def
          number_to_string_exact js_add_exact show_nat_digit digit_char_def)
qed

text \<open>
  C7 as stated fails for a stored canvas whose node carries the suffix \<open>2^53\<close>: the sum
  \<open>2^53 + 1\<close> is no double and rounds back to \<open>2^53\<close>, so the counter is seeded with the
  suffix itself, and the next node created is named like the loaded one.
\<close>

theorem load_seed_rounds_to_saved_suffix:
  "map nid (or_empty (l_nodes example_loaded_big)) = [''text-9007199254740992'']
   \<and> numeric_suffix ''text-9007199254740992'' 9007199254740992
   \<and> nodeIdCounter (graph (apply_load None (Inr (Some example_loaded_big)) initial_session)) =
       9007199254740992
   \<and> map nid (nodes (exec example_rt
                 (graph (apply_load None (Inr (Some example_loaded_big)) initial_session))
                 (CreateNode ''text'' \<lparr>px = 5, py = 5\<rparr>))) =
       [''text-9007199254740992'', ''text-9007199254740992'']"
proof -
  have sfx: "id_suffix ''text-9007199254740992'' = 9007199254740992"
    by (simp add: suffix_eval)
  have ns: "numeric_suffix ''text-9007199254740992'' 9007199254740992"
    by (simp add: suffix_eval)
  have "js_round 9007199254740993 = 9007199254740992"
    by (simp add: js_round_def bit_length.simps Let_def infinity_def)
  then have rnd: "js_add 9007199254740992 (Suc 0) = 9007199254740992"
    by (simp add: js_add_def)
  have str: "number_to_string 9007199254740992 = ''9007199254740992''"
    by (simp add: number_to_string_exact show_nat.simps digit_char_def)
  have seed: "nodeIdCounter (graph (apply_load None (Inr (Some example_loaded_big)) initial_session)) =
                9007199254740992"
    by (simp add: apply_load_def example_loaded_big_def spread_row_def or_empty_def
          max_suffix_def sfx rnd Let_def)
  show ?thesis
    using ns seed
    by (simp add: apply_load_def example_loaded_big_def spread_row_def or_empty_def
          max_suffix_def sfx rnd str handleCreateNode_def new_node_id_def Let_def)
qed


section \<open>The debounced save and its fingerprint guard\<close>

lemma saveCanvasData_skip:
  "fingerprint stringify cl s = lastSaveDataRef s \<Longrightarrow>
     saveCanvasData stringify env cl s = s\<lparr> isSaving := False \<rparr>"
  by (simp add: saveCanvasData_def fingerprint_def Let_def)

lemma saveCanvasData_flowViewport [simp]:
  "flowViewport (saveCanvasData stringify env cl s) = flowViewport s"
  by (simp add: saveCanvasData_def Let_def split: sum.splits)

lemma saveCanvasData_accepted:
  "save_result env = Inr i \<Longrightarrow>
     lastSaveDataRef (saveCanvasData stringify env cl s) = fingerprint stringify cl s"
  by (simp add: saveCanvasData_def fingerprint_def Let_def)

text \<open>
  C2 (amended). A debounced save whose fingerprint equals the recorded one sends nothing
  to the store (no thumbnail request, no upsert, no cleanup) and only clears the saving
  flag. Of two consecutive attempts on the same nodes and edges, the second sends nothing
  provided the first was skipped or accepted by the store.
\<close>

theorem saveCanvasData_skips_unchanged:
  "(fingerprint stringify cl s = lastSaveDataRef s \<longrightarrow>
      calls (saveCanvasData stringify env cl s) = calls s
      \<and> saveCanvasData stringify env cl s = s\<lparr> isSaving := False \<rparr>)
   \<and> (c_nodes cl2 = c_nodes cl \<and> c_edges cl2 = c_edges cl
        \<and> (fingerprint stringify cl s = lastSaveDataRef s \<or> (\<exists>i. save_result env = Inr i)) \<longrightarrow>
      calls (saveCanvasData stringify env2 cl2 (saveCanvasData stringify env cl s)) =
        calls (saveCanvasData stringify env cl s))"
proof (intro conjI impI)
  assume "fingerprint stringify cl s = lastSaveDataRef s"
  then show "calls (saveCanvasData stringify env cl s) = calls s"
    and "saveCanvasData stringify env cl s = s\<lparr> isSaving := False \<rparr>"
    by (simp_all add: saveCanvasData_skip)
next
  let ?s1 = "saveCanvasData stringify env cl s"
  assume a: "c_nodes cl2 = c_nodes cl \<and> c_edges cl2 = c_edges cl
        \<and> (fingerprint stringify cl s = lastSaveDataRef s \<or> (\<exists>i. save_result env = Inr i))"
  then have same: "fingerprint stringify cl2 ?s1 = fingerprint stringify cl s"
    by (simp add: fingerprint_def)
  have "lastSaveDataRef ?s1 = fingerprint stringify cl s"
  proof (cases "fingerprint stringify cl s = lastSaveDataRef s")
    case True
    then show ?thesis by (simp add: saveCanvasData_skip)
  next
    case False
    with a obtain i where "save_result env = Inr i" by blast
    then show ?thesis by (rule saveCanvasData_accepted)
  qed
  with same have "fingerprint stringify cl2 ?s1 = lastSaveDataRef ?s1" by simp
  then show "calls (saveCanvasData stringify env2 cl2 ?s1) = calls ?s1"
    by (simp add: saveCanvasData_skip)
qed

lemmas example_save_defs =
  example_session_def initial_session_def example_graph_def closure_of_def
  saveCanvasData_def manualSave_def tryGenerateThumbnail_def saveCanvas_def
  example_stringify_def env_ok_def env_store_down_def env_no_thumbnail_def
  truthy_def userId_def fingerprint_def Let_def

theorem saveCanvasData_skips_unchanged_witness:
  "fingerprint example_stringify (closure_of example_session)
      (saveCanvasData example_stringify env_ok (closure_of example_session) example_session) =
    lastSaveDataRef (saveCanvasData example_stringify env_ok (closure_of example_session) example_session)
   \<and> length (calls (saveCanvasData example_stringify env_ok (closure_of example_session) example_session)) = 3
   \<and> length (calls (saveCanvasData example_stringify env_ok (closure_of example_session)
        (saveCanvasData example_stringify env_ok (closure_of example_session) example_session))) = 3"
  using saveCanvasData_skips_unchanged
          [of example_stringify "closure_of example_session"
              "saveCanvasData example_stringify env_ok (closure_of example_session) example_session"
              env_ok "closure_of example_session" env_ok]
        saveCanvasData_skips_unchanged
          [of example_stringify "closure_of example_session" example_session
              env_ok "closure_of example_session" env_ok]
  by (simp add: example_save_defs)

text \<open>
  C2 as stated fails: when the first of two attempts with the same fingerprint is
  rejected by the store, nothing is recorded and the second attempt writes again.
\<close>

theorem second_attempt_after_failure_writes:
  "fingerprint example_stringify (closure_of example_session)
      (saveCanvasData example_stringify env_store_down (closure_of example_session) example_session) =
    fingerprint example_stringify (closure_of example_session) example_session
   \<and> calls (saveCanvasData example_stringify env_ok (closure_of example_session)
        (saveCanvasData example_stringify env_store_down (closure_of example_session) example_session)) \<noteq>
      calls (saveCanvasData example_stringify env_store_down (closure_of example_session) example_session)
   \<and> length (calls (saveCanvasData example_stringify env_store_down (closure_of example_session) example_session)) = 2
   \<and> length (calls (saveCanvasData example_stringify env_ok (closure_of example_session)
        (saveCanvasData example_stringify env_store_down (closure_of example_session) example_session))) = 5"
  by (simp add: example_save_defs)


section \<open>The manual save\<close>

lemma manualSave_calls:
  "calls (manualSave env cl s) =
     calls s @ map (Pair ManualSave)
       (snd (tryGenerateThumbnail env cl) @
        save_request (fst (tryGenerateThumbnail env cl)) cl s #
        (case save_result env of Inl e \<Rightarrow> [] | Inr i \<Rightarrow> [Cleanup (c_canvasName cl)]))"
  by (simp add: manualSave_def save_request_def Let_def split: sum.splits)

lemma saveCanvasData_calls:
  "fingerprint stringify cl s \<noteq> lastSaveDataRef s \<Longrightarrow>
   calls (saveCanvasData stringify env cl s) =
     calls s @ map (Pair AutoSave)
       (snd (tryGenerateThumbnail env cl) @
        save_request (fst (tryGenerateThumbnail env cl)) cl s #
        (case save_result env of Inl e \<Rightarrow> [] | Inr i \<Rightarrow> [Cleanup (c_canvasName cl)]))"
  by (simp add: saveCanvasData_def fingerprint_def save_request_def Let_def split: sum.splits)

text \<open>
  C4 (amended). A manual save runs the thumbnail, upsert, cleanup and status steps at
  once and without any fingerprint comparison: it always sends the save request (after the
  thumbnail request when there are nodes, followed by the cleanup when the store accepts),
  reports the outcome in the save status and leaves the recorded fingerprint as it was.
  When a debounced save of the same values would write, both send the same requests.
\<close>

theorem manualSave_always_writes:
  "calls (manualSave env cl s) =
     calls s @ map (Pair ManualSave)
       (snd (tryGenerateThumbnail env cl) @
        save_request (fst (tryGenerateThumbnail env cl)) cl s #
        (case save_result env of Inl e \<Rightarrow> [] | Inr i \<Rightarrow> [Cleanup (c_canvasName cl)]))
   \<and> lastSaveDataRef (manualSave env cl s) = lastSaveDataRef s
   \<and> \<not> isSaving (manualSave env cl s)
   \<and> (case save_result env of
         Inl e \<Rightarrow> saveError (manualSave env cl s) = Some ''Save failed''
                  \<and> lastSavedTime (manualSave env cl s) = ''error''
       | Inr i \<Rightarrow> saveError (manualSave env cl s) = None
                  \<and> lastSavedTime (manualSave env cl s) = ''just now'')
   \<and> (fingerprint stringify cl s \<noteq> lastSaveDataRef s \<longrightarrow>
        map snd (drop (length (calls s)) (calls (manualSave env cl s))) =
        map snd (drop (length (calls s)) (calls (saveCanvasData stringify env cl s)))
        \<and> currentCanvasId (manualSave env cl s) = currentCanvasId (saveCanvasData stringify env cl s))"
proof (intro conjI impI)
  show "calls (manualSave env cl s) =
     calls s @ map (Pair ManualSave)
       (snd (tryGenerateThumbnail env cl) @
        save_request (fst (tryGenerateThumbnail env cl)) cl s #
        (case save_result env of Inl e \<Rightarrow> [] | Inr i \<Rightarrow> [Cleanup (c_canvasName cl)]))"
    by (rule manualSave_calls)
  show "lastSaveDataRef (manualSave env cl s) = lastSaveDataRef s"
    by (simp add: manualSave_def Let_def split: sum.splits)
  show "\<not> isSaving (manualSave env cl s)"
    by (simp add: manualSave_def Let_def split: sum.splits)
  show "case save_result env of
         Inl e \<Rightarrow> saveError (manualSave env cl s) = Some ''Save failed''
                  \<and> lastSavedTime (manualSave env cl s) = ''error''
       | Inr i \<Rightarrow> saveError (manualSave env cl s) = None
                  \<and> lastSavedTime (manualSave env cl s) = ''just now''"
    by (simp add: manualSave_def Let_def split: sum.splits)
next
  assume d: "fingerprint stringify cl s \<noteq> lastSaveDataRef s"
  show "map snd (drop (length (calls s)) (calls (manualSave env cl s))) =
        map snd (drop (length (calls s)) (calls (saveCanvasData stringify env cl s)))"
    unfolding manualSave_calls saveCanvasData_calls [OF d] by (simp add: comp_def)
  show "currentCanvasId (manualSave env cl s) = currentCanvasId (saveCanvasData stringify env cl s)"
    using d by (simp add: manualSave_def saveCanvasData_def fingerprint_def Let_def split: sum.splits)
qed

theorem manualSave_always_writes_witness:
  "fingerprint example_stringify (closure_of example_session) example_session \<noteq> lastSaveDataRef example_session
   \<and> map snd (calls (manualSave env_ok (closure_of example_session) example_session)) =
       map snd (calls (saveCanvasData example_stringify env_ok (closure_of example_session) example_session))
   \<and> length (calls (manualSave env_ok (closure_of example_session) example_session)) = 3"
  using manualSave_always_writes
          [of env_ok "closure_of example_session" example_session example_stringify]
  by (simp add: example_save_defs)

text \<open>
  C4 as stated fails: right after an accepted debounced save the fingerprint is the
  recorded one, yet a manual save sends three requests; and an accepted manual save on a
  fresh session leaves the recorded fingerprint empty.
\<close>

theorem manualSave_ignores_fingerprint:
  "fingerprint example_stringify (closure_of example_saved) example_saved = lastSaveDataRef example_saved
   \<and> calls (manualSave env_ok (closure_of example_saved) example_saved) \<noteq> calls example_saved
   \<and> length (calls (manualSave env_ok (closure_of example_saved) example_saved)) =
       length (calls example_saved) + 3
   \<and> save_result env_ok = Inr ''c1''
   \<and> lastSaveDataRef (manualSave env_ok (closure_of example_session) example_session) = []
   \<and> lastSaveDataRef (manualSave env_ok (closure_of example_session) example_session) \<noteq>
       fingerprint example_stringify (closure_of example_session) example_session"
  by (simp add: example_saved_def example_save_defs)


section \<open>Thumbnail failures\<close>

text \<open>
  Taking the thumbnail out of the request that \<^verbatim>\<open>saveCanvas\<close> builds is the same as building
  it without a thumbnail.
\<close>

lemma without_thumbnail_save_request:
  "without_thumbnail (save_request thumbnailUrl cl s) = save_request None cl s"
  by (simp add: save_request_def saveCanvas_def Let_def truthy_def)

lemma without_thumbnail_ops:
  "map without_thumbnail (snd (tryGenerateThumbnail env cl)) = snd (tryGenerateThumbnail env cl)"
  by (simp add: tryGenerateThumbnail_def)

lemma tryGenerateThumbnail_ops:
  "snd (tryGenerateThumbnail (env\<lparr> thumbnail_result := r \<rparr>) cl) = snd (tryGenerateThumbnail env cl)"
  by (simp add: tryGenerateThumbnail_def)

lemma without_thumbnail_tagged:
  "map (\<lambda>c. (fst c, without_thumbnail (snd c))) (map (Pair tag) ops) =
   map (Pair tag) (map without_thumbnail ops)"
  by (induction ops) simp_all

lemma save_request_None:
  "save_request None cl s =
     (if truthy (c_currentCanvasId cl)
      then CanvasUpdate (the (c_currentCanvasId cl))
             \<lparr> d_user_id = userId,
               d_canvas_name = (if c_canvasName cl = [] then ''My Canvas'' else c_canvasName cl),
               d_nodes = c_nodes cl, d_edges = c_edges cl, d_viewport = flowViewport s,
               d_thumbnail_url = None \<rparr>
      else CanvasUpsert
             \<lparr> d_user_id = userId,
               d_canvas_name = (if c_canvasName cl = [] then ''My Canvas'' else c_canvasName cl),
               d_nodes = c_nodes cl, d_edges = c_edges cl, d_viewport = flowViewport s,
               d_thumbnail_url = None \<rparr>)"
  by (simp add: save_request_def saveCanvas_def Let_def truthy_def)

text \<open>
  C8. When the thumbnail request fails during a save that is not skipped, the save goes on
  as it does otherwise. The requests sent are the thumbnail request, the save request
  and, if the store accepts, the cleanup; the save request writes the nodes, the edges,
  the viewport and the name of the canvas and no thumbnail field. These are the requests
  of the run in which the thumbnail succeeds, with the thumbnail field taken out, and
  apart from the requests the session ends as in that run. The error and the label of the
  save status depend on the answer of the store to the save request alone. The same
  holds for the manual save.
\<close>

theorem thumbnail_failure_is_not_fatal:
  assumes "thumbnail_result env = Inl thumbnailError"
    and "fingerprint stringify cl s \<noteq> lastSaveDataRef s"
  shows "drop (length (calls s)) (calls (saveCanvasData stringify env cl s)) =
           map (Pair AutoSave)
             (snd (tryGenerateThumbnail env cl) @
              (if truthy (c_currentCanvasId cl)
               then CanvasUpdate (the (c_currentCanvasId cl))
                      \<lparr> d_user_id = userId,
                        d_canvas_name = (if c_canvasName cl = [] then ''My Canvas'' else c_canvasName cl),
                        d_nodes = c_nodes cl, d_edges = c_edges cl, d_viewport = flowViewport s,
                        d_thumbnail_url = None \<rparr>
               else CanvasUpsert
                      \<lparr> d_user_id = userId,
                        d_canvas_name = (if c_canvasName cl = [] then ''My Canvas'' else c_canvasName cl),
                        d_nodes = c_nodes cl, d_edges = c_edges cl, d_viewport = flowViewport s,
                        d_thumbnail_url = None \<rparr>) #
              (case save_result env of Inl e \<Rightarrow> [] | Inr i \<Rightarrow> [Cleanup (c_canvasName cl)]))
     \<and> drop (length (calls s)) (calls (saveCanvasData stringify env cl s)) =
         map (\<lambda>c. (fst c, without_thumbnail (snd c)))
           (drop (length (calls s))
              (calls (saveCanvasData stringify (env\<lparr> thumbnail_result := Inr url \<rparr>) cl s)))
     \<and> take (length (calls s)) (calls (saveCanvasData stringify env cl s)) = calls s
     \<and> (saveCanvasData stringify env cl s)\<lparr> calls := [] \<rparr> =
         (saveCanvasData stringify (env\<lparr> thumbnail_result := Inr url \<rparr>) cl s)\<lparr> calls := [] \<rparr>
     \<and> saveError (saveCanvasData stringify env cl s) =
         (case save_result env of Inl e \<Rightarrow> Some ''Auto-save failed'' | Inr i \<Rightarrow> None)
     \<and> lastSavedTime (saveCanvasData stringify env cl s) =
         (case save_result env of Inl e \<Rightarrow> ''error'' | Inr i \<Rightarrow> ''just now'')
     \<and> lastSaveDataRef (saveCanvasData stringify env cl s) =
         (case save_result env of Inl e \<Rightarrow> lastSaveDataRef s | Inr i \<Rightarrow> fingerprint stringify cl s)
     \<and> drop (length (calls s)) (calls (manualSave env cl s)) =
         map (Pair ManualSave)
           (snd (tryGenerateThumbnail env cl) @
            (if truthy (c_currentCanvasId cl)
             then CanvasUpdate (the (c_currentCanvasId cl))
                    \<lparr> d_user_id = userId,
                      d_canvas_name = (if c_canvasName cl = [] then ''My Canvas'' else c_canvasName cl),
                      d_nodes = c_nodes cl, d_edges = c_edges cl, d_viewport = flowViewport s,
                      d_thumbnail_url = None \<rparr>
             else CanvasUpsert
                    \<lparr> d_user_id = userId,
                      d_canvas_name = (if c_canvasName cl = [] then ''My Canvas'' else c_canvasName cl),
                      d_nodes = c_nodes cl, d_edges = c_edges cl, d_viewport = flowViewport s,
                      d_thumbnail_url = None \<rparr>) #
            (case save_result env of Inl e \<Rightarrow> [] | Inr i \<Rightarrow> [Cleanup (c_canvasName cl)]))
     \<and> drop (length (calls s)) (calls (manualSave env cl s)) =
         map (\<lambda>c. (fst c, without_thumbnail (snd c)))
           (drop (length (calls s)) (calls (manualSave (env\<lparr> thumbnail_result := Inr url \<rparr>) cl s)))
     \<and> (manualSave env cl s)\<lparr> calls := [] \<rparr> =
         (manualSave (env\<lparr> thumbnail_result := Inr url \<rparr>) cl s)\<lparr> calls := [] \<rparr>
     \<and> saveError (manualSave env cl s) =
         (case save_result env of Inl e \<Rightarrow> Some ''Save failed'' | Inr i \<Rightarrow> None)
     \<and> lastSavedTime (manualSave env cl s) =
         (case save_result env of Inl e \<Rightarrow> ''error'' | Inr i \<Rightarrow> ''just now'')"
proof -
  let ?ok = "env\<lparr> thumbnail_result := Inr url \<rparr>"
  let ?tail = "case save_result env of Inl e \<Rightarrow> [] | Inr i \<Rightarrow> [Cleanup (c_canvasName cl)]"
  have t: "fst (tryGenerateThumbnail env cl) = None"
    using assms(1) by (simp add: tryGenerateThumbnail_def)
  have res: "save_result ?ok = save_result env" by simp
  have tail: "map without_thumbnail ?tail = ?tail" by (simp split: sum.splits)
  have auto_fail: "calls (saveCanvasData stringify env cl s) =
      calls s @ map (Pair AutoSave) (snd (tryGenerateThumbnail env cl) @ save_request None cl s # ?tail)"
    unfolding saveCanvasData_calls [OF assms(2)] t ..
  have auto_ok: "calls (saveCanvasData stringify ?ok cl s) =
      calls s @ map (Pair AutoSave)
        (snd (tryGenerateThumbnail env cl) @
         save_request (fst (tryGenerateThumbnail ?ok cl)) cl s # ?tail)"
    unfolding saveCanvasData_calls [OF assms(2)] tryGenerateThumbnail_ops res ..
  have man_fail: "calls (manualSave env cl s) =
      calls s @ map (Pair ManualSave) (snd (tryGenerateThumbnail env cl) @ save_request None cl s # ?tail)"
    unfolding manualSave_calls t ..
  have man_ok: "calls (manualSave ?ok cl s) =
      calls s @ map (Pair ManualSave)
        (snd (tryGenerateThumbnail env cl) @
         save_request (fst (tryGenerateThumbnail ?ok cl)) cl s # ?tail)"
    unfolding manualSave_calls tryGenerateThumbnail_ops res ..
  have strip: "map without_thumbnail
                 (snd (tryGenerateThumbnail env cl) @
                  save_request (fst (tryGenerateThumbnail ?ok cl)) cl s # ?tail) =
               snd (tryGenerateThumbnail env cl) @ save_request None cl s # ?tail"
    by (simp only: map_append list.map without_thumbnail_ops without_thumbnail_save_request tail)
  have c1: "drop (length (calls s)) (calls (saveCanvasData stringify env cl s)) =
      map (Pair AutoSave) (snd (tryGenerateThumbnail env cl) @ save_request None cl s # ?tail)"
    unfolding auto_fail by simp
  have "drop (length (calls s)) (calls (saveCanvasData stringify ?ok cl s)) =
      map (Pair AutoSave)
        (snd (tryGenerateThumbnail env cl) @
         save_request (fst (tryGenerateThumbnail ?ok cl)) cl s # ?tail)"
    unfolding auto_ok by simp
  then have c2: "drop (length (calls s)) (calls (saveCanvasData stringify env cl s)) =
         map (\<lambda>c. (fst c, without_thumbnail (snd c)))
           (drop (length (calls s)) (calls (saveCanvasData stringify ?ok cl s)))"
    by (simp only: c1 without_thumbnail_tagged strip)
  have c3: "take (length (calls s)) (calls (saveCanvasData stringify env cl s)) = calls s"
    unfolding auto_fail by simp
  have c4: "(saveCanvasData stringify env cl s)\<lparr> calls := [] \<rparr> =
         (saveCanvasData stringify ?ok cl s)\<lparr> calls := [] \<rparr>"
    using assms(2) by (simp add: saveCanvasData_def fingerprint_def Let_def split: sum.splits)
  have c5: "saveError (saveCanvasData stringify env cl s) =
         (case save_result env of Inl e \<Rightarrow> Some ''Auto-save failed'' | Inr i \<Rightarrow> None)"
    "lastSavedTime (saveCanvasData stringify env cl s) =
         (case save_result env of Inl e \<Rightarrow> ''error'' | Inr i \<Rightarrow> ''just now'')"
    "lastSaveDataRef (saveCanvasData stringify env cl s) =
         (case save_result env of Inl e \<Rightarrow> lastSaveDataRef s | Inr i \<Rightarrow> fingerprint stringify cl s)"
    using assms(2) by (simp_all add: saveCanvasData_def fingerprint_def Let_def split: sum.splits)
  have m1: "drop (length (calls s)) (calls (manualSave env cl s)) =
      map (Pair ManualSave) (snd (tryGenerateThumbnail env cl) @ save_request None cl s # ?tail)"
    unfolding man_fail by simp
  have "drop (length (calls s)) (calls (manualSave ?ok cl s)) =
      map (Pair ManualSave)
        (snd (tryGenerateThumbnail env cl) @
         save_request (fst (tryGenerateThumbnail ?ok cl)) cl s # ?tail)"
    unfolding man_ok by simp
  then have m2: "drop (length (calls s)) (calls (manualSave env cl s)) =
         map (\<lambda>c. (fst c, without_thumbnail (snd c)))
           (drop (length (calls s)) (calls (manualSave ?ok cl s)))"
    by (simp only: m1 without_thumbnail_tagged strip)
  have m3: "(manualSave env cl s)\<lparr> calls := [] \<rparr> = (manualSave ?ok cl s)\<lparr> calls := [] \<rparr>"
    by (simp add: manualSave_def Let_def split: sum.splits)
  have m4: "saveError (manualSave env cl s) =
         (case save_result env of Inl e \<Rightarrow> Some ''Save failed'' | Inr i \<Rightarrow> None)"
    "lastSavedTime (manualSave env cl s) =
         (case save_result env of Inl e \<Rightarrow> ''error'' | Inr i \<Rightarrow> ''just now'')"
    by (simp_all add: manualSave_def Let_def split: sum.splits)
  show ?thesis
    using c1 c2 c3 c4 c5 m1 m2 m3 m4 unfolding save_request_None by (intro conjI)
qed

theorem thumbnail_failure_is_not_fatal_witness:
  "thumbnail_result env_no_thumbnail = Inl (StoreError ''no rows'')
   \<and> fingerprint example_stringify (closure_of example_session) example_session \<noteq>
       lastSaveDataRef example_session
   \<and> calls (saveCanvasData example_stringify env_no_thumbnail (closure_of example_session)
               example_session) =
       [(AutoSave, ThumbnailUpdate ''temp''),
        (AutoSave, CanvasUpsert \<lparr> d_user_id = ''default-user'', d_canvas_name = ''My Canvas'',
                                  d_nodes = nodes example_graph, d_edges = edges example_graph,
                                  d_viewport = \<lparr> vx = 0, vy = 0, zoom = 1 \<rparr>,
                                  d_thumbnail_url = None \<rparr>),
        (AutoSave, Cleanup ''My Canvas'')]
   \<and> saveError (saveCanvasData example_stringify env_no_thumbnail (closure_of example_session)
                   example_session) = None
   \<and> lastSavedTime (saveCanvasData example_stringify env_no_thumbnail (closure_of example_session)
                       example_session) = ''just now''"
  using thumbnail_failure_is_not_fatal
          [of env_no_thumbnail "StoreError ''no rows''" example_stringify
              "closure_of example_session" example_session]
  by (simp add: example_save_defs)


section \<open>No save before the load has finished\<close>

lemma manualSave_keeps:
  "isLoaded (manualSave env cl s) = isLoaded s \<and> saveTimeout (manualSave env cl s) = saveTimeout s
   \<and> (\<forall>c \<in> set (calls (manualSave env cl s)). c \<in> set (calls s) \<or> fst c = ManualSave)"
  by (auto simp: manualSave_def Let_def split: sum.splits)

lemma step_before_load:
  assumes "\<not> isLoaded s" "saveTimeout s = None" "\<forall>c \<in> set (calls s). fst c \<noteq> AutoSave"
    and "\<forall>res. ev \<noteq> LoadFinished res"
  shows "\<not> isLoaded (step stringify rt canvasId s ev) \<and>
         saveTimeout (step stringify rt canvasId s ev) = None \<and>
         (\<forall>c \<in> set (calls (step stringify rt canvasId s ev)). fst c \<noteq> AutoSave)"
proof (cases ev)
  case (LoadFinished res)
  with assms(4) show ?thesis by simp
next
  case (Command c)
  with assms show ?thesis by (simp add: auto_save_effect_def keydown_effect_def)
next
  case (ViewportChange v)
  with assms show ?thesis by (simp add: auto_save_effect_def)
next
  case (Rename n)
  with assms show ?thesis by (simp add: auto_save_effect_def)
next
  case (TimerFires env)
  with assms show ?thesis by simp
next
  case (ManualSaveKey env)
  have k: "isLoaded (manualSave env (keyClosure s) s) = isLoaded s"
    "saveTimeout (manualSave env (keyClosure s) s) = saveTimeout s"
    "\<forall>c \<in> set (calls (manualSave env (keyClosure s) s)). c \<in> set (calls s) \<or> fst c = ManualSave"
    using manualSave_keeps [of env "keyClosure s" s] by auto
  have "\<forall>c \<in> set (calls (manualSave env (keyClosure s) s)). fst c \<noteq> AutoSave"
    using k(3) assms(3) by force
  with k assms show ?thesis
    unfolding ManualSaveKey by (simp add: auto_save_effect_def Let_def)
qed

lemma isLoaded_step:
  "isLoaded (step stringify rt canvasId s ev) \<longleftrightarrow> isLoaded s \<or> (\<exists>res. ev = LoadFinished res)"
proof (cases ev)
  case (LoadFinished res)
  then show ?thesis
    by (simp add: auto_save_effect_def keydown_effect_def apply_load_def Let_def
          split: sum.splits option.splits)
next
  case (Command c)
  then show ?thesis by (simp add: auto_save_effect_def keydown_effect_def)
next
  case (ViewportChange v)
  then show ?thesis by (simp add: auto_save_effect_def)
next
  case (Rename n)
  then show ?thesis by (simp add: auto_save_effect_def)
next
  case (TimerFires env)
  then show ?thesis
    by (simp add: auto_save_effect_def saveCanvasData_def Let_def split: option.splits sum.splits)
next
  case (ManualSaveKey env)
  then show ?thesis
    by (simp add: auto_save_effect_def manualSave_def Let_def split: sum.splits)
qed

lemma run_session_snoc:
  "run_session stringify rt canvasId (evs @ [ev]) =
     step stringify rt canvasId (run_session stringify rt canvasId evs) ev"
  by (simp add: run_session_def)

lemma isLoaded_run:
  "isLoaded (run_session stringify rt canvasId evs) \<longleftrightarrow> (\<exists>res. LoadFinished res \<in> set evs)"
proof (induction evs rule: rev_induct)
  case Nil
  show ?case by (simp add: run_session_def initial_session_def)
next
  case (snoc ev evs)
  then show ?case unfolding run_session_snoc isLoaded_step by auto
qed

text \<open>
  C5. In every state that a session reaches from its initial state, the load flag is set
  exactly when a load has finished (with a canvas, without one, or with an error). While
  it is not set, no debounce timer is pending and no request of the auto-save path has
  been sent to the store, whatever edits, viewport changes, renames and timer events
  occurred.
\<close>

theorem no_save_before_load:
  "(isLoaded (run_session stringify rt canvasId evs) \<longleftrightarrow> (\<exists>res. LoadFinished res \<in> set evs))
   \<and> (\<not> isLoaded (run_session stringify rt canvasId evs) \<longrightarrow>
        saveTimeout (run_session stringify rt canvasId evs) = None
        \<and> (\<forall>c \<in> set (calls (run_session stringify rt canvasId evs)). fst c \<noteq> AutoSave))"
proof
  show "isLoaded (run_session stringify rt canvasId evs) \<longleftrightarrow> (\<exists>res. LoadFinished res \<in> set evs)"
    by (rule isLoaded_run)
  show "\<not> isLoaded (run_session stringify rt canvasId evs) \<longrightarrow>
        saveTimeout (run_session stringify rt canvasId evs) = None
        \<and> (\<forall>c \<in> set (calls (run_session stringify rt canvasId evs)). fst c \<noteq> AutoSave)"
  proof (induction evs rule: rev_induct)
    case Nil
    show ?case by (simp add: run_session_def initial_session_def)
  next
    case (snoc ev evs)
    show ?case
    proof
      let ?s = "run_session stringify rt canvasId evs"
      assume n: "\<not> isLoaded (run_session stringify rt canvasId (evs @ [ev]))"
      then have a: "\<not> isLoaded ?s" and b: "\<forall>res. ev \<noteq> LoadFinished res"
        unfolding run_session_snoc isLoaded_step by auto
      with snoc have "saveTimeout ?s = None" "\<forall>c \<in> set (calls ?s). fst c \<noteq> AutoSave" by auto
      with a b show "saveTimeout (run_session stringify rt canvasId (evs @ [ev])) = None
        \<and> (\<forall>c \<in> set (calls (run_session stringify rt canvasId (evs @ [ev]))). fst c \<noteq> AutoSave)"
        unfolding run_session_snoc using step_before_load [of ?s ev stringify rt canvasId] by blast
    qed
  qed
qed

theorem no_save_before_load_witness:
  "\<not> isLoaded (run_session example_stringify example_rt None example_events)
   \<and> saveTimeout (run_session example_stringify example_rt None example_events) = None
   \<and> map fst (calls (run_session example_stringify example_rt None example_events)) =
       [ManualSave, ManualSave, ManualSave]
   \<and> saveTimeout (run_session example_stringify example_rt None
                     (example_events @ [LoadFinished (Inr None)])) \<noteq> None"
  using no_save_before_load [of example_stringify example_rt None example_events]
  by (simp add: example_events_def run_session_def auto_save_effect_def keydown_effect_def
        apply_load_def handleCreateNode_def new_node_id_def number_to_string_exact js_add_exact
        show_nat_digit digit_char_def node_type_of_def
        initial_data_def initial_canvas_def example_save_defs)


section \<open>Loading a canvas that does not exist\<close>

lemma maybeSingle_none: "maybeSingle (filter P xs) = Inr None \<longleftrightarrow> (\<forall>x \<in> set xs. \<not> P x)"
proof
  assume "maybeSingle (filter P xs) = Inr None"
  then have "filter P xs = []"
    by (cases "filter P xs" rule: maybeSingle.cases) simp_all
  then show "\<forall>x \<in> set xs. \<not> P x" by (simp add: filter_empty_conv)
next
  assume "\<forall>x \<in> set xs. \<not> P x"
  then have "filter P xs = []" by (simp add: filter_empty_conv)
  then show "maybeSingle (filter P xs) = Inr None" by simp
qed

text \<open>
  C10. When the store answers and no row has the requested id, \<^verbatim>\<open>loadCanvas\<close> resolves to
  an object that has the fields \<^verbatim>\<open>permission: 'edit'\<close> and \<^verbatim>\<open>isOwner: true\<close> and no other
  (no nodes, edges, viewport or name), whereas a load by name without a matching row
  resolves to \<^verbatim>\<open>null\<close>. The caller \<^verbatim>\<open>loadCanvasData\<close> tests the result for truthiness: for
  the unknown id it takes the branch of an existing canvas (empty graph, counter 1, label
  \<open>just now\<close>, the unknown id kept as record id), for the unknown name the branch of no
  canvas (label \<open>never\<close>).
\<close>

theorem loadCanvas_unknown_id_is_truthy:
  assumes "\<not> offline st" and "canvasId \<noteq> []"
    and "\<forall>r \<in> set (canvases st). row_id r \<noteq> canvasId"
    and "\<forall>r \<in> set (canvases st). \<not> (user_id r = userId \<and> canvas_name r = name)"
  shows "loadCanvas st (Some canvasId) name = Inr (Some bare_object)
       \<and> loadCanvas st None name = Inr None
       \<and> loadCanvasData st (Some canvasId) s =
           s\<lparr> currentCanvasId := Some canvasId,
              graph := (graph s)\<lparr> nodes := [], edges := [], nodeIdCounter := 1 \<rparr>,
              canvasName := ''My Canvas'',
              lastSavedTime := ''just now'',
              isSaving := False, isLoaded := True \<rparr>
       \<and> (name = ''My Canvas'' \<longrightarrow>
            loadCanvasData st None s =
              s\<lparr> currentCanvasId := None, lastSavedTime := ''never'', canvasName := ''My Canvas'',
                 isSaving := False, isLoaded := True \<rparr>)"
proof -
  have q1: "maybeSingle (filter (\<lambda>r. Some (row_id r) = Some canvasId) (canvases st)) = Inr None"
    unfolding maybeSingle_none using assms(3) by simp
  have q2: "maybeSingle (filter (\<lambda>r. user_id r = userId \<and> canvas_name r = name) (canvases st)) = Inr None"
    unfolding maybeSingle_none using assms(4) by simp
  have l1: "loadCanvas st (Some canvasId) name = Inr (Some bare_object)"
    using assms(1,2) q1
    by (simp add: loadCanvas_def query_def truthy_def spread_row_def bare_object_def)
  have l2: "loadCanvas st None name = Inr None"
    using assms(1) q2 by (simp add: loadCanvas_def query_def truthy_def)
  have l3: "loadCanvas st (Some canvasId) ''My Canvas'' = Inr (Some bare_object)"
    using assms(1,2) q1
    by (simp add: loadCanvas_def query_def truthy_def spread_row_def bare_object_def)
  show ?thesis
  proof (intro conjI impI)
    show "loadCanvas st (Some canvasId) name = Inr (Some bare_object)" by (rule l1)
    show "loadCanvas st None name = Inr None" by (rule l2)
    show "loadCanvasData st (Some canvasId) s =
           s\<lparr> currentCanvasId := Some canvasId,
              graph := (graph s)\<lparr> nodes := [], edges := [], nodeIdCounter := 1 \<rparr>,
              canvasName := ''My Canvas'',
              lastSavedTime := ''just now'',
              isSaving := False, isLoaded := True \<rparr>"
      using assms(2) l3
      by (simp add: loadCanvasData_def apply_load_def truthy_def bare_object_def or_empty_def
            max_suffix_def js_add_exact Let_def)
    assume "name = ''My Canvas''"
    with l2 show "loadCanvasData st None s =
              s\<lparr> currentCanvasId := None, lastSavedTime := ''never'', canvasName := ''My Canvas'',
                 isSaving := False, isLoaded := True \<rparr>"
      by (simp add: loadCanvasData_def apply_load_def truthy_def Let_def)
  qed
qed

theorem loadCanvas_unknown_id_is_truthy_witness:
  "loadCanvas example_store (Some ''c9'') ''My Canvas'' = Inr (Some bare_object)
   \<and> loadCanvas example_store None ''My Canvas'' = Inr None
   \<and> lastSavedTime (loadCanvasData example_store (Some ''c9'') initial_session) = ''just now''
   \<and> lastSavedTime (loadCanvasData example_store None initial_session) = ''never''"
  using loadCanvas_unknown_id_is_truthy [of example_store "''c9''" "''My Canvas''" initial_session]
  by (simp add: example_store_def userId_def initial_session_def)


section \<open>Duplicating the selection\<close>

text \<open>
  What the duplicate command does with a non-empty selection: it clears every selection
  flag, appends one copy per selected node, moved by (50, 50) and unselected, and advances
  the counter by the number of copies. Every copy gets the same number in its id.
\<close>

lemma duplicateSelectedNodes_shape:
  assumes "filter selected (nodes s) \<noteq> []"
  shows "nodes (duplicateSelectedNodes rt s) =
           map (\<lambda>n. n\<lparr>selected := False\<rparr>) (nodes s) @
           map (dup_node rt (js_add (nodeIdCounter s) (length (nodes s)))) (filter selected (nodes s))"
    and "nodeIdCounter (duplicateSelectedNodes rt s) =
           js_add (nodeIdCounter s) (length (filter selected (nodes s)))"
  using assms by (simp_all add: duplicateSelectedNodes_def Let_def)

lemma dup_node_fields:
  "position (dup_node rt k n) =
     \<lparr> px = add rt (px (position n)) 50, py = add rt (py (position n)) 50 \<rparr>"
  "\<not> selected (dup_node rt k n)"
  by (simp_all add: dup_node_def)

lemma dup_node_suffix:
  assumes "k \<le> 2 ^ 53"
  shows "id_suffix (nid (dup_node rt k n)) = k"
proof -
  have "nid (dup_node rt k n) = dup_prefix n @ ''-'' @ number_to_string k"
    by (simp add: dup_node_def)
  then show ?thesis using assms by (simp only: id_suffix_templated)
qed

text \<open>
  C3. Two text nodes are created on an empty canvas and both selected; the duplicate
  command appends two copies and advances the counter by two, but both copies receive the
  id \<open>text-5\<close>: the number in the id is the same for every copy of one command.
\<close>

theorem duplicateSelectedNodes_copies_share_id:
  "map nid (nodes example_pair) = [''text-1'', ''text-2'']
   \<and> map selected (nodes example_pair) = [True, True]
   \<and> nodeIdCounter example_pair = 3
   \<and> map nid (nodes (duplicateSelectedNodes example_rt example_pair)) =
       [''text-1'', ''text-2'', ''text-5'', ''text-5'']
   \<and> nodeIdCounter (duplicateSelectedNodes example_rt example_pair) = 5"
  by (simp add: example_pair_def run_def initial_canvas_def handleCreateNode_def Let_def
        new_node_id_def number_to_string_exact js_add_exact show_nat_digit digit_char_def
        selectAll_def duplicateSelectedNodes_def dup_node_def dup_prefix_def node_type_of_def)

text \<open>
  The number can also be that of a node still on the canvas: in the run above the only node
  left is \<open>text-5\<close>, and its copy is named \<open>text-5\<close> again.
\<close>

lemma duplicate_reuses_existing_id:
  "map nid (nodes (run example_rt example_trace initial_canvas)) = [''text-5'']
   \<and> nodeIdCounter (run example_rt example_trace initial_canvas) = 4
   \<and> map nid (nodes (duplicateSelectedNodes example_rt (run example_rt example_trace initial_canvas))) =
       [''text-5'', ''text-5'']"
  by (simp add: example_trace_def example_rt_def run_def initial_canvas_def handleCreateNode_def
        Let_def new_node_id_def number_to_string_exact js_add_exact show_nat_digit digit_char_def
        selectAll_def duplicateSelectedNodes_def dup_node_def dup_prefix_def node_type_of_def
        handleMouseDown_def handleMouseMove_def handleMouseUp_def node_in_box_def
        deleteSelected_def)



end
